theory Spec2Isabelle
  imports Main
begin

unbundle bit_operations_syntax

section \<open>Bit helpers\<close>

text \<open>
  The three inline helpers of \<^verbatim>\<open>main.cpp\<close>. The C++ \<^verbatim>\<open>int\<close> is modelled by \<^typ>\<open>int\<close>:
  \<^verbatim>\<open>1 << bit\<close> is \<open>push_bit bit 1\<close>, \<^verbatim>\<open>number >> bit\<close> is \<open>drop_bit bit number\<close>
  (an arithmetic shift, so the value \<open>-1\<close> has every bit set). The helpers that take
  a reference return the new value.
\<close>

definition SET_BIT :: "int \<Rightarrow> nat \<Rightarrow> int" where
  "SET_BIT number k = number OR (push_bit k 1)"

definition CLEAR_BIT :: "int \<Rightarrow> nat \<Rightarrow> int" where
  "CLEAR_BIT number k = number AND (NOT (push_bit k 1))"

definition GET_BIT :: "int \<Rightarrow> nat \<Rightarrow> int" where
  "GET_BIT number k = (drop_bit k number) AND 1"

section \<open>Machine integers\<close>

text \<open>
  The brightness of a crystal, the row sums and the values of the answers are C++
  \<^verbatim>\<open>int\<close>s of 32 bits. They are modelled by \<^typ>\<open>int\<close>, and every addition of the source on
  them is followed by \<open>int32\<close>, which brings the sum back into the range from \<open>-2 ^ 31\<close> to
  \<open>2 ^ 31 - 1\<close> by wrapping around modulo \<open>2 ^ 32\<close>: the two's complement result that the
  compiled program leaves in the variable (the C++ standard itself leaves a signed
  overflow undefined). Comparisons are then the signed comparisons of the source.
\<close>

definition int32 :: "int \<Rightarrow> int" where
  "int32 x = (x + 2147483648) mod 4294967296 - 2147483648"

section \<open>Data model\<close>

text \<open>
  \<^verbatim>\<open>struct Cristal\<close>: the brightness (\<open>-1\<close>: no crystal at the position) and the
  connection mask (bits 0, 1, 2, 3: right, up, left, down).
\<close>

record Cristal =
  brilho :: int
  conexoes :: int

definition Cristal_padrao :: Cristal where
  "Cristal_padrao = \<lparr>brilho = -1, conexoes = 0\<rparr>"

text \<open>
  \<^verbatim>\<open>struct Resposta\<close>: one cell of the memo table. The field \<open>conf\<close> is an \<^verbatim>\<open>int\<close> in
  the source; the only values ever stored in it are \<open>0\<close>, a loop index and a
  configuration that was used as an index, so it is a \<^typ>\<open>nat\<close> here.
\<close>

record Resposta =
  calculado :: bool
  valor :: int
  conf :: nat

definition Resposta_padrao :: Resposta where
  "Resposta_padrao = \<lparr>calculado = False, valor = -1, conf = 0\<rparr>"

text \<open>
  \<^verbatim>\<open>class Cifra\<close>. The fields keep the names of the source without the trailing
  underscore (\<^verbatim>\<open>L_\<close> is \<open>L\<close>, \<^verbatim>\<open>memo_\<close> is \<open>memo\<close>). The dimensions are naturals; the
  number of configurations \<^verbatim>\<open>0b1 << c\<close> is \<open>2 ^ c\<close>, and a column count for which
  \<^verbatim>\<open>1 << c\<close> overflows lies outside the model (the table of \<open>L * 4 ^ c\<close> answers cannot be
  allocated long before). The counter \<open>num_cristais_usados\<close> grows by at most \<open>L * C\<close> in
  one call of \<open>Resolve\<close> and is left unbounded.
\<close>

record Cifra =
  L :: nat
  C :: nat
  N :: int
  num_possibilidades :: nat
  num_cristais_usados :: int
  max_valor_caixa :: int
  cristais_solucao :: "(int \<times> int) list"
  caixa :: "Cristal list list"
  memo :: "Resposta list list list"

text \<open>An access outside a vector is undefined behaviour in the source; the model
  makes it the one error value.\<close>

datatype erro = ForaDosLimites

text \<open>The constructor \<^verbatim>\<open>Cifra(l, c, n)\<close>: an empty box and an empty memo table.\<close>

definition nova_Cifra :: "nat \<Rightarrow> nat \<Rightarrow> int \<Rightarrow> Cifra" where
  "nova_Cifra l c n =
     \<lparr>L = l, C = c, N = n, num_possibilidades = 2 ^ c,
      num_cristais_usados = 0, max_valor_caixa = 0, cristais_solucao = [],
      caixa = replicate l (replicate c Cristal_padrao),
      memo = replicate l (replicate (2 ^ c) (replicate (2 ^ c) Resposta_padrao))\<rparr>"

text \<open>
  \<^verbatim>\<open>AdicionaCristal(x, y, v, d, c, e, b)\<close>: packs the four flags (a flag counts as set
  only when it equals 1) and stores the crystal at the 0-based position
  \<open>(x - 1, y - 1)\<close>. The source does not check the coordinates; a position outside
  the box is the error. The brightness \<open>v\<close> is stored as it is read; the program reads it
  with \<^verbatim>\<open>%d\<close>, so it is a 32-bit value.
\<close>

definition AdicionaCristal ::
  "Cifra \<Rightarrow> int \<Rightarrow> int \<Rightarrow> int \<Rightarrow> int \<Rightarrow> int \<Rightarrow> int \<Rightarrow> int \<Rightarrow> erro + Cifra" where
  "AdicionaCristal s x y v d c e b =
     (let cx = 0;
          cx = (if d = 1 then SET_BIT cx 0 else CLEAR_BIT cx 0);
          cx = (if c = 1 then SET_BIT cx 1 else CLEAR_BIT cx 1);
          cx = (if e = 1 then SET_BIT cx 2 else CLEAR_BIT cx 2);
          cx = (if b = 1 then SET_BIT cx 3 else CLEAR_BIT cx 3)
      in if 1 \<le> x \<and> nat (x - 1) < length (caixa s) \<and>
            1 \<le> y \<and> nat (y - 1) < length (caixa s ! nat (x - 1))
         then Inr (s\<lparr>caixa := (caixa s)[nat (x - 1) :=
                        (caixa s ! nat (x - 1))[nat (y - 1) := \<lparr>brilho = v, conexoes = cx\<rparr>]]\<rparr>)
         else Inl ForaDosLimites)"

section \<open>The compatibility predicates\<close>

text \<open>
  \<^verbatim>\<open>EhInternamenteConsistente(linha, conf)\<close>: the loop over the columns returns false at
  the first column that is active without a crystal, or active together with its right
  neighbour (cyclically, \<^verbatim>\<open>(j + 1) % C_\<close>) while connected to it; true when no column
  does. Configurations are naturals (the source passes loop indices from 0). Both
  predicates and the row sum read \<^verbatim>\<open>caixa_[linha][j]\<close> for \<open>j < C\<close> without a check of
  their own: \<open>f\<close> calls them after it has indexed the table at \<open>linha\<close>, and the box has as
  many rows as the table, each of \<open>C\<close> cells (lemma \<open>construida\<close>).
\<close>

definition EhInternamenteConsistente :: "Cifra \<Rightarrow> nat \<Rightarrow> nat \<Rightarrow> bool" where
  "EhInternamenteConsistente s linha cf =
     list_all (\<lambda>j.
        \<not> (GET_BIT (int cf) j = 1 \<and> brilho (caixa s ! linha ! j) = -1) \<and>
        \<not> (GET_BIT (int cf) j = 1 \<and>
           GET_BIT (int cf) ((j + 1) mod C s) = 1 \<and>
           GET_BIT (conexoes (caixa s ! linha ! j)) 0 = 1))
       [0..<C s]"

text \<open>
  \<^verbatim>\<open>SaoCompativeis(linha, conf_i, conf_s)\<close>: false at the first column active in both
  configurations whose cell in row \<open>linha\<close> has bit 1 of its mask set (the source tests
  the bit for truth, that is, for being non-zero).
\<close>

definition SaoCompativeis :: "Cifra \<Rightarrow> nat \<Rightarrow> nat \<Rightarrow> nat \<Rightarrow> bool" where
  "SaoCompativeis s linha conf_i conf_s =
     list_all (\<lambda>j.
        \<not> (GET_BIT (int conf_i) j = 1 \<and>
           GET_BIT (int conf_s) j = 1 \<and>
           GET_BIT (conexoes (caixa s ! linha ! j)) 1 \<noteq> 0))
       [0..<C s]"

section \<open>The memoised dynamic programme\<close>

text \<open>Reading and writing \<^verbatim>\<open>memo_[linha][conf][conf_inicial]\<close>, and the test that the
  three indices are inside the table.\<close>

definition memo_dentro :: "Cifra \<Rightarrow> nat \<Rightarrow> nat \<Rightarrow> nat \<Rightarrow> bool" where
  "memo_dentro s linha cf ci \<longleftrightarrow>
     linha < length (memo s) \<and> cf < length (memo s ! linha) \<and>
     ci < length (memo s ! linha ! cf)"

definition memo_em :: "Cifra \<Rightarrow> nat \<Rightarrow> nat \<Rightarrow> nat \<Rightarrow> Resposta" where
  "memo_em s linha cf ci = memo s ! linha ! cf ! ci"

definition memo_grava :: "Cifra \<Rightarrow> nat \<Rightarrow> nat \<Rightarrow> nat \<Rightarrow> Resposta \<Rightarrow> Cifra" where
  "memo_grava s linha cf ci r =
     s\<lparr>memo := (memo s)[linha := (memo s ! linha)[cf := (memo s ! linha ! cf)[ci := r]]]\<rparr>"

text \<open>The row value summed by the second loop of \<^verbatim>\<open>f\<close> (\<^verbatim>\<open>valor_linha\<close>), a 32-bit sum:
  \<^verbatim>\<open>valor_linha += caixa_[linha][j].brilho\<close> for every active column.\<close>

definition soma_linha :: "Cifra \<Rightarrow> nat \<Rightarrow> nat \<Rightarrow> int" where
  "soma_linha s linha cf =
     fold (\<lambda>j valor_linha.
             if GET_BIT (int cf) j = 1 then int32 (valor_linha + brilho (caixa s ! linha ! j))
             else valor_linha)
       [0..<C s] 0"

text \<open>
  \<^verbatim>\<open>Resposta f(linha, conf, conf_inicial)\<close>, with the object threaded through as state.
  The branches are those of the source, in its order: memo hit; inconsistent
  configuration; base case \<open>linha = 0\<close>; the loop over every configuration \<open>poss\<close> of
  the row above, which replaces \<open>maximo\<close> only on a strictly greater value. The sum
  \<^verbatim>\<open>resp.valor + valor_linha\<close> is a 32-bit sum. The first statement of the source indexes
  the memo table, so indices outside it are the error.
\<close>

function f :: "Cifra \<Rightarrow> nat \<Rightarrow> nat \<Rightarrow> nat \<Rightarrow> erro + (Resposta \<times> Cifra)" where
  "f s linha cf conf_inicial =
     (if \<not> memo_dentro s linha cf conf_inicial then Inl ForaDosLimites
      else if calculado (memo_em s linha cf conf_inicial)
        then Inr (memo_em s linha cf conf_inicial, s)
      else if \<not> EhInternamenteConsistente s linha cf
        then Inr (\<lparr>calculado = True, valor = -1, conf = 0\<rparr>,
                  memo_grava s linha cf conf_inicial \<lparr>calculado = True, valor = -1, conf = 0\<rparr>)
      else
        let valor_linha = soma_linha s linha cf in
        if linha = 0 then
          if \<not> SaoCompativeis s linha cf conf_inicial
            then Inr (\<lparr>calculado = True, valor = -1, conf = 0\<rparr>,
                      memo_grava s linha cf conf_inicial \<lparr>calculado = True, valor = -1, conf = 0\<rparr>)
          else Inr (\<lparr>calculado = True, valor = valor_linha, conf = conf_inicial\<rparr>,
                    memo_grava s linha cf conf_inicial
                      \<lparr>calculado = True, valor = valor_linha, conf = conf_inicial\<rparr>)
        else
          (case fold (\<lambda>poss acc.
                  (case acc of
                    Inl err \<Rightarrow> Inl err
                  | Inr (maximo, s1) \<Rightarrow>
                      if \<not> SaoCompativeis s1 linha cf poss then Inr (maximo, s1)
                      else
                        (case f s1 (linha - 1) poss conf_inicial of
                          Inl err \<Rightarrow> Inl err
                        | Inr (resp, s2) \<Rightarrow>
                            if valor resp = -1 then Inr (maximo, s2)
                            else if int32 (valor resp + valor_linha) > valor maximo
                              then Inr (\<lparr>calculado = True,
                                         valor = int32 (valor resp + valor_linha),
                                         conf = poss\<rparr>, s2)
                            else Inr (maximo, s2))))
                 [0..<num_possibilidades s]
                 (Inr (\<lparr>calculado = True, valor = -1, conf = 0\<rparr>, s)) of
            Inl err \<Rightarrow> Inl err
          | Inr (maximo, s') \<Rightarrow> Inr (maximo, memo_grava s' linha cf conf_inicial maximo)))"
  by pat_completeness auto
termination
  by (relation "measure (\<lambda>(s, linha, cf, conf_inicial). linha)") auto

declare f.simps [simp del]

section \<open>Solving and output\<close>

text \<open>
  \<^verbatim>\<open>Resolve()\<close>, as its two loops in sequence.

  \<open>Resolve_ancora\<close> is the first loop: every configuration \<open>i\<close> is tried as the anchor,
  \<^verbatim>\<open>f(L_ - 1, i, i)\<close>, and the first one with a strictly greater value is kept; the
  local \<open>conf_inicial_maxima\<close> starts at \<open>-1\<close> and \<open>maximo\<close> at the dead answer. With no
  row, \<^verbatim>\<open>L_ - 1\<close> is the index \<open>-1\<close>: the error.

  \<open>Resolve_percorre\<close> is the second loop: rows from \<open>L - 1\<close> down to 0 and, inside,
  columns from \<open>C - 1\<close> down to 0; every active column is counted and appended in
  1-based coordinates, and then the configuration of the row above is read from
  \<^verbatim>\<open>memo_[(i + L_) % L_][conf][conf_inicial_maxima]\<close>. The local \<open>conf\<close> is an
  \<^typ>\<open>int\<close>, as it starts from \<open>conf_inicial_maxima\<close>; a negative index is the error.
  The counter and the list are neither reset nor cleared by the source.
\<close>

definition Resolve_ancora :: "Cifra \<Rightarrow> erro + int \<times> Resposta \<times> Cifra" where
  "Resolve_ancora s =
     fold (\<lambda>i acc.
             (case acc of
               Inl err \<Rightarrow> Inl err
             | Inr (conf_inicial_maxima, maximo, s1) \<Rightarrow>
                 if L s1 = 0 then Inl ForaDosLimites
                 else
                   (case f s1 (L s1 - 1) i i of
                     Inl err \<Rightarrow> Inl err
                   | Inr (resp, s2) \<Rightarrow>
                       if valor resp > valor maximo then Inr (int i, resp, s2)
                       else Inr (conf_inicial_maxima, maximo, s2))))
       [0..<num_possibilidades s]
       (Inr (-1, \<lparr>calculado = True, valor = -1, conf = 0\<rparr>, s))"

definition Resolve_percorre :: "int \<Rightarrow> Cifra \<Rightarrow> erro + Cifra" where
  "Resolve_percorre conf_inicial_maxima s =
     (case fold (\<lambda>i acc.
             (case acc of
               Inl err \<Rightarrow> Inl err
             | Inr (cf, s2) \<Rightarrow>
                 let s3 = fold (\<lambda>j s'.
                            if GET_BIT cf j = 1
                            then s'\<lparr>num_cristais_usados := num_cristais_usados s' + 1,
                                    cristais_solucao :=
                                      cristais_solucao s' @ [(int i + 1, int j + 1)]\<rparr>
                            else s')
                          (rev [0..<C s2]) s2
                 in if 0 \<le> cf \<and> 0 \<le> conf_inicial_maxima \<and>
                       memo_dentro s3 ((i + L s3) mod L s3) (nat cf) (nat conf_inicial_maxima)
                    then Inr (int (conf (memo_em s3 ((i + L s3) mod L s3) (nat cf)
                                           (nat conf_inicial_maxima))), s3)
                    else Inl ForaDosLimites))
            (rev [0..<L s])
            (Inr (conf_inicial_maxima, s)) of
        Inl err \<Rightarrow> Inl err
      | Inr (cf, s2) \<Rightarrow> Inr s2)"

definition Resolve :: "Cifra \<Rightarrow> erro + Cifra" where
  "Resolve s =
     (case Resolve_ancora s of
        Inl err \<Rightarrow> Inl err
      | Inr (conf_inicial_maxima, maximo, s1) \<Rightarrow>
          Resolve_percorre conf_inicial_maxima (s1\<lparr>max_valor_caixa := valor maximo\<rparr>))"

text \<open>
  The table indices at which the second loop reads, for the rows \<open>k - 1\<close> down to 0,
  starting from the configuration \<open>cf\<close>: at row \<open>i\<close> it reads
  \<^verbatim>\<open>memo_[(i + L_) % L_][conf][conf_inicial_maxima]\<close> and goes on with the \<open>conf\<close> field
  found there.
\<close>

fun leituras :: "Cifra \<Rightarrow> nat \<Rightarrow> nat \<Rightarrow> nat \<Rightarrow> (nat \<times> nat \<times> nat) list" where
  "leituras s 0 cf ci = []"
| "leituras s (Suc k) cf ci =
     ((k + L s) mod L s, cf, ci) #
       leituras s k (conf (memo_em s ((k + L s) mod L s) cf ci)) ci"

text \<open>The two accessors. The debugging functions \<^verbatim>\<open>DumpCaixa\<close> and \<^verbatim>\<open>DumpMemo\<close> are private
  and never called; they are left out.\<close>

definition GetValoresSolucao :: "Cifra \<Rightarrow> int \<times> int" where
  "GetValoresSolucao s = (num_cristais_usados s, max_valor_caixa s)"

definition GetCristaisSolucao :: "Cifra \<Rightarrow> (int \<times> int) list" where
  "GetCristaisSolucao s = cristais_solucao s"

text \<open>
  \<^verbatim>\<open>main\<close>: the input is the header \<open>L C N\<close> and the \<open>N\<close> records
  \<open>(x, y, v, d, c, e, b)\<close>, given here as the list of the records read; the output is
  the list of the printed lines, each a pair of integers: first the count and the total,
  then one line for every cell of the solution, in the order of the list.
\<close>

type_synonym registro = "int \<times> int \<times> int \<times> int \<times> int \<times> int \<times> int"

fun le_cristais :: "Cifra \<Rightarrow> registro list \<Rightarrow> erro + Cifra" where
  "le_cristais s [] = Inr s"
| "le_cristais s ((x, y, v, d, c, e, b) # rs) =
     (case AdicionaCristal s x y v d c e b of
        Inl err \<Rightarrow> Inl err
      | Inr s' \<Rightarrow> le_cristais s' rs)"

definition main :: "nat \<Rightarrow> nat \<Rightarrow> registro list \<Rightarrow> erro + (int \<times> int) list" where
  "main l c rs =
     (case le_cristais (nova_Cifra l c (int (length rs))) rs of
        Inl err \<Rightarrow> Inl err
      | Inr s \<Rightarrow>
          (case Resolve s of
             Inl err \<Rightarrow> Inl err
           | Inr s' \<Rightarrow> Inr (GetValoresSolucao s' # GetCristaisSolucao s')))"

section \<open>Definitions used in the proofs\<close>

text \<open>The dead answer \<^verbatim>\<open>{true, -1, 0}\<close> of the source.\<close>

definition morta :: Resposta where
  "morta = \<lparr>calculado = True, valor = -1, conf = 0\<rparr>"

text \<open>One iteration of the loop of \<open>f\<close> over the configurations \<open>poss\<close> of the row above, the
  answers of the recursive calls being given by the function \<open>acima\<close>.\<close>

definition passo :: "Cifra \<Rightarrow> nat \<Rightarrow> nat \<Rightarrow> int \<Rightarrow> (nat \<Rightarrow> Resposta) \<Rightarrow> nat \<Rightarrow> Resposta \<Rightarrow> Resposta" where
  "passo s linha cf valor_linha acima poss maximo =
     (if \<not> SaoCompativeis s linha cf poss then maximo
      else if valor (acima poss) = -1 then maximo
      else if int32 (valor (acima poss) + valor_linha) > valor maximo
        then \<lparr>calculado = True, valor = int32 (valor (acima poss) + valor_linha), conf = poss\<rparr>
      else maximo)"

text \<open>The answer of \<open>f\<close> read without the table: the same branches in the same order, the
  recursive calls replaced by their values. Lemma \<open>f_correct\<close> shows that \<open>f\<close> returns
  this answer from every table that satisfies the invariant below.\<close>

fun f_puro :: "Cifra \<Rightarrow> nat \<Rightarrow> nat \<Rightarrow> nat \<Rightarrow> Resposta" where
  "f_puro s 0 cf conf_inicial =
     (if \<not> EhInternamenteConsistente s 0 cf then morta
      else if \<not> SaoCompativeis s 0 cf conf_inicial then morta
      else \<lparr>calculado = True, valor = soma_linha s 0 cf, conf = conf_inicial\<rparr>)"
| "f_puro s (Suc l) cf conf_inicial =
     (if \<not> EhInternamenteConsistente s (Suc l) cf then morta
      else fold (passo s (Suc l) cf (soma_linha s (Suc l) cf) (\<lambda>poss. f_puro s l poss conf_inicial))
             [0..<num_possibilidades s] morta)"

text \<open>Two states with the same box and the same dimensions.\<close>

definition mesma_caixa :: "Cifra \<Rightarrow> Cifra \<Rightarrow> bool" where
  "mesma_caixa s s' \<longleftrightarrow>
     L s' = L s \<and> C s' = C s \<and> num_possibilidades s' = num_possibilidades s \<and> caixa s' = caixa s"

text \<open>The second state differs from the first in the table at most.\<close>

definition so_memo :: "Cifra \<Rightarrow> Cifra \<Rightarrow> bool" where
  "so_memo s s' \<longleftrightarrow> s' = s\<lparr>memo := memo s'\<rparr>"

text \<open>The shapes set up by the constructor: \<open>L\<close> rows of \<open>C\<close> cells, \<open>2 ^ C\<close> configurations, and
  a table of \<open>L\<close> by \<open>2 ^ C\<close> by \<open>2 ^ C\<close> answers.\<close>

definition dims :: "Cifra \<Rightarrow> bool" where
  "dims s \<longleftrightarrow>
     num_possibilidades s = 2 ^ C s \<and>
     length (caixa s) = L s \<and> (\<forall>r<L s. length (caixa s ! r) = C s) \<and>
     length (memo s) = L s \<and>
     (\<forall>r<L s. length (memo s ! r) = num_possibilidades s \<and>
        (\<forall>k<num_possibilidades s. length (memo s ! r ! k) = num_possibilidades s))"

text \<open>The invariant of the table: a computed entry holds the answer \<open>f_puro\<close>, and when that
  answer is not dead and the row is not row 0, the entry of the row above that its
  \<open>conf\<close> field points to is computed as well.\<close>

definition memo_ok :: "Cifra \<Rightarrow> bool" where
  "memo_ok s \<longleftrightarrow>
     (\<forall>l<L s. \<forall>cf<num_possibilidades s. \<forall>ci<num_possibilidades s.
        calculado (memo_em s l cf ci) \<longrightarrow>
          memo_em s l cf ci = f_puro s l cf ci \<and>
          (0 < l \<and> valor (f_puro s l cf ci) \<noteq> -1 \<longrightarrow>
             calculado (memo_em s (l - 1) (conf (f_puro s l cf ci)) ci)))"

text \<open>Entries computed in the first state are still computed in the second.\<close>

definition persiste :: "Cifra \<Rightarrow> Cifra \<Rightarrow> bool" where
  "persiste s s' \<longleftrightarrow>
     (\<forall>l<L s. \<forall>cf<num_possibilidades s. \<forall>ci<num_possibilidades s.
        calculado (memo_em s l cf ci) \<longrightarrow> calculado (memo_em s' l cf ci))"

text \<open>The invariant kept by \<open>f\<close> and \<open>Resolve\<close>.\<close>

definition bem_formada :: "Cifra \<Rightarrow> bool" where
  "bem_formada s \<longleftrightarrow> dims s \<and> memo_ok s"

text \<open>The body of the loop of \<open>f\<close> as a function of its own, as written in \<open>f\<close>.\<close>

definition laco_f ::
  "nat \<Rightarrow> nat \<Rightarrow> nat \<Rightarrow> int \<Rightarrow> nat \<Rightarrow> erro + Resposta \<times> Cifra \<Rightarrow> erro + Resposta \<times> Cifra" where
  "laco_f linha cf conf_inicial valor_linha poss acc =
     (case acc of
        Inl err \<Rightarrow> Inl err
      | Inr (maximo, s1) \<Rightarrow>
          if \<not> SaoCompativeis s1 linha cf poss then Inr (maximo, s1)
          else
            (case f s1 (linha - 1) poss conf_inicial of
               Inl err \<Rightarrow> Inl err
             | Inr (resp, s2) \<Rightarrow>
                 if valor resp = -1 then Inr (maximo, s2)
                 else if int32 (valor resp + valor_linha) > valor maximo
                   then Inr (\<lparr>calculado = True, valor = int32 (valor resp + valor_linha),
                              conf = poss\<rparr>, s2)
                 else Inr (maximo, s2)))"

text \<open>One iteration of the first loop of \<open>Resolve\<close>, over the answers \<open>f_puro\<close>.\<close>

definition ancora_passo :: "Cifra \<Rightarrow> nat \<Rightarrow> int \<times> Resposta \<Rightarrow> int \<times> Resposta" where
  "ancora_passo s i acc =
     (if valor (f_puro s (L s - 1) i i) > valor (snd acc) then (int i, f_puro s (L s - 1) i i)
      else acc)"

text \<open>The pair \<open>(conf_inicial_maxima, maximo)\<close> with which the first loop of \<open>Resolve\<close> ends.\<close>

definition ancora :: "Cifra \<Rightarrow> int \<times> Resposta" where
  "ancora s = fold (ancora_passo s) [0..<num_possibilidades s] (-1, morta)"

text \<open>The cells appended by the loop over the columns at row \<open>i\<close> for the configuration \<open>cf\<close>.\<close>

definition emite :: "nat \<Rightarrow> nat \<Rightarrow> int \<Rightarrow> (int \<times> int) list" where
  "emite c i cf =
     map (\<lambda>j. (int i + 1, int j + 1)) (filter (\<lambda>j. GET_BIT cf j = 1) (rev [0..<c]))"

text \<open>The cells appended for the rows \<open>k - 1\<close> down to 0, starting from the configuration
  \<open>cf\<close> and going up through the \<open>conf\<close> fields of the answers.\<close>

fun celulas_ate :: "Cifra \<Rightarrow> nat \<Rightarrow> nat \<Rightarrow> nat \<Rightarrow> (int \<times> int) list" where
  "celulas_ate s 0 cf ci = []"
| "celulas_ate s (Suc k) cf ci =
     emite (C s) k (int cf) @ celulas_ate s k (conf (f_puro s k cf ci)) ci"

text \<open>The list of cells that \<open>Resolve\<close> appends.\<close>

definition solucao :: "Cifra \<Rightarrow> (int \<times> int) list" where
  "solucao s = celulas_ate s (L s) (nat (fst (ancora s))) (nat (fst (ancora s)))"

text \<open>A state after a list of cells has been counted and appended.\<close>

definition com_celulas :: "Cifra \<Rightarrow> (int \<times> int) list \<Rightarrow> Cifra" where
  "com_celulas s cs =
     s\<lparr>num_cristais_usados := num_cristais_usados s + int (length cs),
       cristais_solucao := cristais_solucao s @ cs\<rparr>"

text \<open>The bodies of the loops of \<open>Resolve_ancora\<close> and \<open>Resolve_percorre\<close> as functions of their
  own, as written there.\<close>

definition laco_ancora ::
  "nat \<Rightarrow> erro + int \<times> Resposta \<times> Cifra \<Rightarrow> erro + int \<times> Resposta \<times> Cifra" where
  "laco_ancora i acc =
     (case acc of
        Inl err \<Rightarrow> Inl err
      | Inr (conf_inicial_maxima, maximo, s1) \<Rightarrow>
          if L s1 = 0 then Inl ForaDosLimites
          else
            (case f s1 (L s1 - 1) i i of
               Inl err \<Rightarrow> Inl err
             | Inr (resp, s2) \<Rightarrow>
                 if valor resp > valor maximo then Inr (int i, resp, s2)
                 else Inr (conf_inicial_maxima, maximo, s2)))"

definition laco_colunas :: "int \<Rightarrow> nat \<Rightarrow> nat \<Rightarrow> Cifra \<Rightarrow> Cifra" where
  "laco_colunas cf i j s' =
     (if GET_BIT cf j = 1
      then s'\<lparr>num_cristais_usados := num_cristais_usados s' + 1,
              cristais_solucao := cristais_solucao s' @ [(int i + 1, int j + 1)]\<rparr>
      else s')"

definition laco_linhas :: "int \<Rightarrow> nat \<Rightarrow> erro + int \<times> Cifra \<Rightarrow> erro + int \<times> Cifra" where
  "laco_linhas conf_inicial_maxima i acc =
     (case acc of
        Inl err \<Rightarrow> Inl err
      | Inr (cf, s2) \<Rightarrow>
          let s3 = fold (laco_colunas cf i) (rev [0..<C s2]) s2
          in if 0 \<le> cf \<and> 0 \<le> conf_inicial_maxima \<and>
                memo_dentro s3 ((i + L s3) mod L s3) (nat cf) (nat conf_inicial_maxima)
             then Inr (int (conf (memo_em s3 ((i + L s3) mod L s3) (nat cf)
                                    (nat conf_inicial_maxima))), s3)
             else Inl ForaDosLimites)"

text \<open>The cells appended along a list of table reads.\<close>

definition emitidas :: "Cifra \<Rightarrow> (nat \<times> nat \<times> nat) list \<Rightarrow> (int \<times> int) list" where
  "emitidas s ls = concat (map (\<lambda>(i, cf, ci). emite (C s) i (int cf)) ls)"

text \<open>A box on which \<open>Resolve\<close> has not run: the shapes are right, no entry of the table is
  computed, the counter is 0 and the list is empty.\<close>

definition fresca :: "Cifra \<Rightarrow> bool" where
  "fresca s \<longleftrightarrow>
     dims s \<and>
     (\<forall>l<L s. \<forall>cf<num_possibilidades s. \<forall>ci<num_possibilidades s.
        \<not> calculado (memo_em s l cf ci)) \<and>
     num_cristais_usados s = 0 \<and> cristais_solucao s = []"

text \<open>The mask packed by \<open>AdicionaCristal\<close> from the four flags.\<close>

definition mascara :: "int \<Rightarrow> int \<Rightarrow> int \<Rightarrow> int \<Rightarrow> int" where
  "mascara d c e b =
     (let cx = 0;
          cx = (if d = 1 then SET_BIT cx 0 else CLEAR_BIT cx 0);
          cx = (if c = 1 then SET_BIT cx 1 else CLEAR_BIT cx 1);
          cx = (if e = 1 then SET_BIT cx 2 else CLEAR_BIT cx 2);
          cx = (if b = 1 then SET_BIT cx 3 else CLEAR_BIT cx 3)
      in cx)"

text \<open>Storing a crystal at a 0-based position of the box.\<close>

definition poe :: "Cifra \<Rightarrow> nat \<Rightarrow> nat \<Rightarrow> Cristal \<Rightarrow> Cifra" where
  "poe s i j cr = s\<lparr>caixa := (caixa s)[i := (caixa s ! i)[j := cr]]\<rparr>"

text \<open>The configurations chosen for the rows 0 to \<open>k - 1\<close> (the index in the list is the row),
  starting from \<open>cf\<close> at row \<open>k - 1\<close>.\<close>

fun cadeia :: "Cifra \<Rightarrow> nat \<Rightarrow> nat \<Rightarrow> nat \<Rightarrow> nat list" where
  "cadeia s 0 cf ci = []"
| "cadeia s (Suc k) cf ci = cadeia s k (conf (f_puro s k cf ci)) ci @ [cf]"

text \<open>Example boxes: one crystal of value 5 in a 1 by 1 box; a 1 by 4 box of four crystals
  of value 1500000000; a 2 by 2 box of four crystals of value 1 where cell (1, 1) is
  connected to the right and downwards and cell (2, 1) upwards.\<close>

definition caixa_1x1 :: Cifra where
  "caixa_1x1 = (nova_Cifra 1 1 1)\<lparr>caixa := [[\<lparr>brilho = 5, conexoes = 0\<rparr>]]\<rparr>"

text \<open>The records and the box of the 1 by 4 example.\<close>

definition registros_grandes :: "registro list" where
  "registros_grandes =
     [(1, 1, 1500000000, 0, 0, 0, 0), (1, 2, 1500000000, 0, 0, 0, 0),
      (1, 3, 1500000000, 0, 0, 0, 0), (1, 4, 1500000000, 0, 0, 0, 0)]"

definition caixa_grande :: Cifra where
  "caixa_grande =
     (nova_Cifra 1 4 4)\<lparr>caixa :=
        [[\<lparr>brilho = 1500000000, conexoes = 0\<rparr>, \<lparr>brilho = 1500000000, conexoes = 0\<rparr>,
          \<lparr>brilho = 1500000000, conexoes = 0\<rparr>, \<lparr>brilho = 1500000000, conexoes = 0\<rparr>]]\<rparr>"

definition registros_2x2 :: "registro list" where
  "registros_2x2 =
     [(1, 1, 1, 1, 0, 0, 1), (1, 2, 1, 0, 0, 0, 0), (2, 1, 1, 0, 1, 0, 0), (2, 2, 1, 0, 0, 0, 0)]"

definition caixa_2x2 :: Cifra where
  "caixa_2x2 =
     (nova_Cifra 2 2 4)\<lparr>caixa :=
        [[\<lparr>brilho = 1, conexoes = 9\<rparr>, \<lparr>brilho = 1, conexoes = 0\<rparr>],
         [\<lparr>brilho = 1, conexoes = 2\<rparr>, \<lparr>brilho = 1, conexoes = 0\<rparr>]]\<rparr>"

text \<open>Two crystals with the same brightness and the same bits 0 and 1 of the mask.\<close>

definition mesmos_bits :: "Cristal \<Rightarrow> Cristal \<Rightarrow> bool" where
  "mesmos_bits a b \<longleftrightarrow>
     brilho b = brilho a \<and>
     GET_BIT (conexoes b) 0 = GET_BIT (conexoes a) 0 \<and>
     GET_BIT (conexoes b) 1 = GET_BIT (conexoes a) 1"

text \<open>Two states that differ in the box at most, cell by cell only in what \<open>mesmos_bits\<close>
  leaves free (bits 2 and 3 of the masks).\<close>

definition irma :: "Cifra \<Rightarrow> Cifra \<Rightarrow> bool" where
  "irma s t \<longleftrightarrow>
     t = s\<lparr>caixa := caixa t\<rparr> \<and> length (caixa t) = length (caixa s) \<and>
     (\<forall>r<length (caixa s).
        length (caixa t ! r) = length (caixa s ! r) \<and>
        (\<forall>j<length (caixa s ! r). mesmos_bits (caixa s ! r ! j) (caixa t ! r ! j)))"

text \<open>A 2 by 2 box in which two configurations of row 0 tie as the best row above
  configuration 1 of row 1; the same box with a crystal of value 0 added at (2, 2); and
  the records of the 2 by 2 example with other left and down flags.\<close>

definition registros_empate :: "registro list" where
  "registros_empate = [(1, 1, 3, 1, 0, 0, 0), (1, 2, 3, 0, 0, 0, 0), (2, 1, 1, 0, 0, 0, 0)]"

definition caixa_empate :: Cifra where
  "caixa_empate =
     (nova_Cifra 2 2 3)\<lparr>caixa :=
        [[\<lparr>brilho = 3, conexoes = 1\<rparr>, \<lparr>brilho = 3, conexoes = 0\<rparr>],
         [\<lparr>brilho = 1, conexoes = 0\<rparr>, Cristal_padrao]]\<rparr>"

definition caixa_empate_mais :: Cifra where
  "caixa_empate_mais =
     (nova_Cifra 2 2 3)\<lparr>caixa :=
        [[\<lparr>brilho = 3, conexoes = 1\<rparr>, \<lparr>brilho = 3, conexoes = 0\<rparr>],
         [\<lparr>brilho = 1, conexoes = 0\<rparr>, \<lparr>brilho = 0, conexoes = 0\<rparr>]]\<rparr>"



definition registros_2x2_eb :: "registro list" where
  "registros_2x2_eb =
     [(1, 1, 1, 1, 0, 1, 0), (1, 2, 1, 0, 0, 1, 1), (2, 1, 1, 0, 1, 0, 1), (2, 2, 1, 0, 0, 1, 0)]"

section \<open>Proofs\<close>

subsection \<open>Sums of 32 bits\<close>

lemma int32_range: "- 2147483648 \<le> int32 x" "int32 x < 2147483648"
  unfolding int32_def by simp_all

lemma int32_id: "- 2147483648 \<le> x \<Longrightarrow> x < 2147483648 \<Longrightarrow> int32 x = x"
  unfolding int32_def by simp

lemma int32_int32 [simp]: "int32 (int32 x) = int32 x"
  by (rule int32_id) (rule int32_range)+

lemma int32_add_left [simp]: "int32 (int32 a + b) = int32 (a + b)"
proof -
  have "(int32 a + b + 2147483648) mod 4294967296 =
        ((a + 2147483648) mod 4294967296 + b) mod 4294967296"
    by (simp add: int32_def)
  also have "\<dots> = (a + 2147483648 + b) mod 4294967296"
    by (rule mod_add_left_eq)
  also have "\<dots> = (a + b + 2147483648) mod 4294967296"
    by (simp add: algebra_simps)
  finally have "(int32 a + b + 2147483648) mod 4294967296 =
                (a + b + 2147483648) mod 4294967296" .
  then show ?thesis unfolding int32_def[of "int32 a + b"] int32_def[of "a + b"] by simp
qed

lemma int32_add_right [simp]: "int32 (a + int32 b) = int32 (a + b)"
  using int32_add_left[of b a] by (simp add: add.commute)

lemma int32_0 [simp]: "int32 0 = 0"
  by (simp add: int32_def)

lemma int32_m1 [simp]: "int32 (- 1) = - 1"
  by (simp add: int32_def)

lemma int32_eq_iff: "int32 x = x \<longleftrightarrow> - 2147483648 \<le> x \<and> x < 2147483648"
  using int32_range[of x] int32_id[of x] by auto

subsection \<open>What the predicates and the pure answer depend on\<close>

lemma memo_grava_fields [simp]:
  "L (memo_grava s l k ci r) = L s"
  "C (memo_grava s l k ci r) = C s"
  "N (memo_grava s l k ci r) = N s"
  "num_possibilidades (memo_grava s l k ci r) = num_possibilidades s"
  "num_cristais_usados (memo_grava s l k ci r) = num_cristais_usados s"
  "max_valor_caixa (memo_grava s l k ci r) = max_valor_caixa s"
  "cristais_solucao (memo_grava s l k ci r) = cristais_solucao s"
  "caixa (memo_grava s l k ci r) = caixa s"
  by (simp_all add: memo_grava_def)

lemma mesma_caixa_refl [simp]: "mesma_caixa s s"
  by (simp add: mesma_caixa_def)

lemma mesma_caixa_trans: "mesma_caixa s s1 \<Longrightarrow> mesma_caixa s1 s2 \<Longrightarrow> mesma_caixa s s2"
  by (simp add: mesma_caixa_def)

lemma mesma_caixa_sym: "mesma_caixa s s1 \<Longrightarrow> mesma_caixa s1 s"
  by (simp add: mesma_caixa_def)

lemma so_memo_refl [simp]: "so_memo s s"
  by (simp add: so_memo_def)

lemma so_memo_trans: "so_memo s s1 \<Longrightarrow> so_memo s1 s2 \<Longrightarrow> so_memo s s2"
  unfolding so_memo_def by (metis Cifra.surjective Cifra.update_convs(9))

lemma so_memo_grava [simp]: "so_memo s (memo_grava s l k ci r)"
  by (simp add: so_memo_def memo_grava_def)

lemma so_memo_mesma_caixa: "so_memo s s' \<Longrightarrow> mesma_caixa s s'"
  unfolding so_memo_def mesma_caixa_def
  by (metis Cifra.select_convs(1,2,4,8) Cifra.surjective Cifra.update_convs(9))

lemma Eh_mesma: "mesma_caixa s s' \<Longrightarrow> EhInternamenteConsistente s' l cf = EhInternamenteConsistente s l cf"
  by (simp add: mesma_caixa_def EhInternamenteConsistente_def)

lemma Sao_mesma: "mesma_caixa s s' \<Longrightarrow> SaoCompativeis s' l a b = SaoCompativeis s l a b"
  by (simp add: mesma_caixa_def SaoCompativeis_def)

lemma soma_mesma: "mesma_caixa s s' \<Longrightarrow> soma_linha s' l cf = soma_linha s l cf"
  by (simp add: mesma_caixa_def soma_linha_def cong: if_cong)

lemma passo_mesma: "mesma_caixa s s' \<Longrightarrow> passo s' l cf vl ac = passo s l cf vl ac"
  by (simp add: fun_eq_iff passo_def Sao_mesma)

lemma calculado_morta [simp]: "calculado morta" "valor morta = -1" "conf morta = 0"
  by (simp_all add: morta_def)

lemma fold_passo_calculado:
  "calculado m \<Longrightarrow> calculado (fold (passo s l cf vl ac) ps m)"
  by (induction ps arbitrary: m) (auto simp: passo_def)

lemma fold_passo_conf:
  "conf m < n \<Longrightarrow> set ps \<subseteq> {..<n} \<Longrightarrow> conf (fold (passo s l cf vl ac) ps m) < n"
  by (induction ps arbitrary: m) (auto simp: passo_def)

lemma calculado_f_puro [simp]: "calculado (f_puro s l cf ci)"
  by (cases l) (simp_all add: fold_passo_calculado)

lemma f_puro_mesma: "mesma_caixa s s' \<Longrightarrow> f_puro s' l cf ci = f_puro s l cf ci"
proof (induction l arbitrary: cf)
  case 0
  then show ?case by (simp add: Eh_mesma Sao_mesma soma_mesma)
next
  case (Suc l)
  have np: "num_possibilidades s' = num_possibilidades s"
    using Suc.prems by (simp add: mesma_caixa_def)
  have "(\<lambda>poss. f_puro s' l poss ci) = (\<lambda>poss. f_puro s l poss ci)"
    using Suc by auto
  then show ?case
    using Suc.prems by (simp add: Eh_mesma soma_mesma passo_mesma np)
qed

subsection \<open>The table\<close>

lemma np_pos: "dims s \<Longrightarrow> 0 < num_possibilidades s"
  by (simp add: dims_def)

lemma memo_dentro_iff:
  "dims s \<Longrightarrow> l < L s \<Longrightarrow>
   memo_dentro s l k ci \<longleftrightarrow> k < num_possibilidades s \<and> ci < num_possibilidades s"
  by (auto simp: dims_def memo_dentro_def)

lemma memo_dentro_fora: "dims s \<Longrightarrow> \<not> l < L s \<Longrightarrow> \<not> memo_dentro s l k ci"
  by (auto simp: dims_def memo_dentro_def)

lemma length_nth_upd: "length (xs[i := y] ! j) = (if i = j \<and> i < length xs then length y else length (xs ! j))"
  by (cases "i < length xs") (auto simp: nth_list_update list_update_beyond)

lemma dims_grava: "dims s \<Longrightarrow> dims (memo_grava s l k ci r)"
  unfolding dims_def memo_grava_def
  by (auto simp: length_nth_upd nth_list_update)

lemma memo_em_grava:
  "dims s \<Longrightarrow> l < L s \<Longrightarrow> k < num_possibilidades s \<Longrightarrow> ci < num_possibilidades s \<Longrightarrow>
   memo_em (memo_grava s l k ci r) l' k' ci' =
     (if l' = l \<and> k' = k \<and> ci' = ci then r else memo_em s l' k' ci')"
  unfolding dims_def memo_grava_def memo_em_def
  by (auto simp: nth_list_update)

lemma dims_so_memo_fields:
  "so_memo s s' \<Longrightarrow> L s' = L s \<and> C s' = C s \<and> num_possibilidades s' = num_possibilidades s"
  using so_memo_mesma_caixa[of s s'] by (simp add: mesma_caixa_def)

lemma persiste_refl [simp]: "persiste s s"
  by (simp add: persiste_def)

lemma persiste_trans:
  "mesma_caixa s s1 \<Longrightarrow> persiste s s1 \<Longrightarrow> persiste s1 s2 \<Longrightarrow> persiste s s2"
  by (simp add: persiste_def mesma_caixa_def)

lemma persiste_grava:
  "dims s \<Longrightarrow> l < L s \<Longrightarrow> k < num_possibilidades s \<Longrightarrow> ci < num_possibilidades s \<Longrightarrow>
   calculado r \<Longrightarrow> persiste s (memo_grava s l k ci r)"
  by (simp add: persiste_def memo_em_grava)

lemma conf_f_puro_lt:
  assumes "dims s" "ci < num_possibilidades s"
  shows "conf (f_puro s l cf ci) < num_possibilidades s"
proof (cases l)
  case 0
  then show ?thesis using assms np_pos[OF assms(1)] by simp
next
  case (Suc l')
  have "set [0..<num_possibilidades s] \<subseteq> {..<num_possibilidades s}" by auto
  then show ?thesis
    using Suc np_pos[OF assms(1)] by (simp add: fold_passo_conf)
qed

declare f_puro.simps [simp del]

lemma memo_okD:
  "memo_ok s \<Longrightarrow> l < L s \<Longrightarrow> cf < num_possibilidades s \<Longrightarrow> ci < num_possibilidades s \<Longrightarrow>
   calculado (memo_em s l cf ci) \<Longrightarrow> memo_em s l cf ci = f_puro s l cf ci"
  unfolding memo_ok_def by blast

lemma memo_ok_fecho:
  "memo_ok s \<Longrightarrow> l < L s \<Longrightarrow> cf < num_possibilidades s \<Longrightarrow> ci < num_possibilidades s \<Longrightarrow>
   calculado (memo_em s l cf ci) \<Longrightarrow> 0 < l \<Longrightarrow> valor (f_puro s l cf ci) \<noteq> -1 \<Longrightarrow>
   calculado (memo_em s (l - 1) (conf (f_puro s l cf ci)) ci)"
  unfolding memo_ok_def by blast

lemma bem_formada_grava:
  assumes bf: "bem_formada s"
    and lt: "l < L s" "k < num_possibilidades s" "ci < num_possibilidades s"
    and r: "r = f_puro s l k ci"
    and fecho: "0 < l \<and> valor r \<noteq> -1 \<longrightarrow> calculado (memo_em s (l - 1) (conf r) ci)"
  shows "bem_formada (memo_grava s l k ci r)"
proof -
  let ?s = "memo_grava s l k ci r"
  have d: "dims s" and ok: "memo_ok s" using bf by (simp_all add: bem_formada_def)
  have mc: "mesma_caixa s ?s" by (rule so_memo_mesma_caixa) simp
  have fp: "\<And>l' cf' ci'. f_puro ?s l' cf' ci' = f_puro s l' cf' ci'"
    by (rule f_puro_mesma[OF mc])
  have em: "\<And>l' k' ci'. memo_em ?s l' k' ci' =
     (if l' = l \<and> k' = k \<and> ci' = ci then r else memo_em s l' k' ci')"
    by (rule memo_em_grava[OF d lt])
  have r': "f_puro s l k ci = r" using r by simp
  have cr: "calculado r" using r by simp
  have "memo_ok ?s"
    unfolding memo_ok_def
  proof (intro allI impI)
    fix l' cf' ci'
    assume b: "l' < L ?s" "cf' < num_possibilidades ?s" "ci' < num_possibilidades ?s"
      and c: "calculado (memo_em ?s l' cf' ci')"
    show "memo_em ?s l' cf' ci' = f_puro ?s l' cf' ci' \<and>
          (0 < l' \<and> valor (f_puro ?s l' cf' ci') \<noteq> -1 \<longrightarrow>
             calculado (memo_em ?s (l' - 1) (conf (f_puro ?s l' cf' ci')) ci'))"
    proof (cases "l' = l \<and> cf' = k \<and> ci' = ci")
      case True
      then show ?thesis using fecho by (auto simp: em fp r')
    next
      case False
      then have c': "calculado (memo_em s l' cf' ci')" using c by (auto simp: em split: if_splits)
      have b': "l' < L s" "cf' < num_possibilidades s" "ci' < num_possibilidades s"
        using b by simp_all
      have e1: "memo_em s l' cf' ci' = f_puro s l' cf' ci'"
        by (rule memo_okD[OF ok b' c'])
      have e2: "0 < l' \<Longrightarrow> valor (f_puro s l' cf' ci') \<noteq> -1 \<Longrightarrow>
             calculado (memo_em s (l' - 1) (conf (f_puro s l' cf' ci')) ci')"
        by (rule memo_ok_fecho[OF ok b' c'])
      show ?thesis using False e1 e2 cr by (auto simp: em fp)
    qed
  qed
  then show ?thesis using dims_grava[OF d] by (simp add: bem_formada_def)
qed

subsection \<open>The memoised function returns the pure answer\<close>

lemma f_fora: "\<not> memo_dentro s l cf ci \<Longrightarrow> f s l cf ci = Inl ForaDosLimites"
  by (subst f.simps) simp

lemma f_hit:
  "memo_dentro s l cf ci \<Longrightarrow> calculado (memo_em s l cf ci) \<Longrightarrow>
   f s l cf ci = Inr (memo_em s l cf ci, s)"
  by (subst f.simps) simp

lemma f_incons:
  "memo_dentro s l cf ci \<Longrightarrow> \<not> calculado (memo_em s l cf ci) \<Longrightarrow>
   \<not> EhInternamenteConsistente s l cf \<Longrightarrow>
   f s l cf ci = Inr (morta, memo_grava s l cf ci morta)"
  by (subst f.simps) (simp add: morta_def)

lemma f_base:
  "memo_dentro s 0 cf ci \<Longrightarrow> \<not> calculado (memo_em s 0 cf ci) \<Longrightarrow>
   EhInternamenteConsistente s 0 cf \<Longrightarrow>
   f s 0 cf ci =
     (if \<not> SaoCompativeis s 0 cf ci then Inr (morta, memo_grava s 0 cf ci morta)
      else Inr (\<lparr>calculado = True, valor = soma_linha s 0 cf, conf = ci\<rparr>,
                memo_grava s 0 cf ci \<lparr>calculado = True, valor = soma_linha s 0 cf, conf = ci\<rparr>))"
  by (subst f.simps) (simp add: morta_def Let_def)

lemma f_rec:
  "memo_dentro s l cf ci \<Longrightarrow> \<not> calculado (memo_em s l cf ci) \<Longrightarrow>
   EhInternamenteConsistente s l cf \<Longrightarrow> 0 < l \<Longrightarrow>
   f s l cf ci =
     (case fold (laco_f l cf ci (soma_linha s l cf)) [0..<num_possibilidades s] (Inr (morta, s)) of
        Inl err \<Rightarrow> Inl err
      | Inr (maximo, s') \<Rightarrow> Inr (maximo, memo_grava s' l cf ci maximo))"
  by (subst f.simps) (simp add: morta_def laco_f_def[abs_def] Let_def)

lemma fold_laco_f:
  assumes IH: "\<And>s1 p. bem_formada s1 \<Longrightarrow> so_memo s s1 \<Longrightarrow> p < num_possibilidades s \<Longrightarrow>
        \<exists>s2. f s1 l p ci = Inr (f_puro s l p ci, s2) \<and> bem_formada s2 \<and> so_memo s1 s2 \<and>
             persiste s1 s2 \<and> calculado (memo_em s2 l p ci)"
    and l: "Suc l < L s" and ci: "ci < num_possibilidades s"
    and ps: "set ps \<subseteq> {..<num_possibilidades s}"
    and s1: "bem_formada s1" "so_memo s s1"
  shows "\<exists>s2. fold (laco_f (Suc l) cf ci vl) ps (Inr (maximo, s1)) =
            Inr (fold (passo s (Suc l) cf vl (\<lambda>p. f_puro s l p ci)) ps maximo, s2) \<and>
          bem_formada s2 \<and> so_memo s1 s2 \<and> persiste s1 s2 \<and>
          (\<forall>p\<in>set ps. SaoCompativeis s (Suc l) cf p \<longrightarrow> calculado (memo_em s2 l p ci))"
  using ps s1
proof (induction ps arbitrary: maximo s1)
  case Nil
  then show ?case by simp
next
  case (Cons p ps)
  have p: "p < num_possibilidades s" and ps: "set ps \<subseteq> {..<num_possibilidades s}"
    using Cons.prems(1) by auto
  have mc1: "mesma_caixa s s1" by (rule so_memo_mesma_caixa[OF Cons.prems(3)])
  show ?case
  proof (cases "SaoCompativeis s (Suc l) cf p")
    case False
    have a: "laco_f (Suc l) cf ci vl p (Inr (maximo, s1)) = Inr (maximo, s1)"
      using False by (simp add: laco_f_def Sao_mesma[OF mc1])
    have b: "passo s (Suc l) cf vl (\<lambda>p. f_puro s l p ci) p maximo = maximo"
      using False by (simp add: passo_def)
    from Cons.IH[OF ps Cons.prems(2,3), of maximo] obtain s2 where
      "fold (laco_f (Suc l) cf ci vl) ps (Inr (maximo, s1)) =
         Inr (fold (passo s (Suc l) cf vl (\<lambda>p. f_puro s l p ci)) ps maximo, s2)"
      "bem_formada s2" "so_memo s1 s2" "persiste s1 s2"
      "\<forall>p\<in>set ps. SaoCompativeis s (Suc l) cf p \<longrightarrow> calculado (memo_em s2 l p ci)"
      by blast
    then show ?thesis using a b False by auto
  next
    case True
    from IH[OF Cons.prems(2,3) p] obtain s2 where
      s2: "f s1 l p ci = Inr (f_puro s l p ci, s2)" "bem_formada s2" "so_memo s1 s2"
          "persiste s1 s2" "calculado (memo_em s2 l p ci)"
      by blast
    let ?m = "passo s (Suc l) cf vl (\<lambda>p. f_puro s l p ci) p maximo"
    have a: "laco_f (Suc l) cf ci vl p (Inr (maximo, s1)) = Inr (?m, s2)"
      using True s2(1) by (simp add: laco_f_def Sao_mesma[OF mc1] passo_def)
    have sm2: "so_memo s s2" by (rule so_memo_trans[OF Cons.prems(3) s2(3)])
    from Cons.IH[OF ps s2(2) sm2, of ?m] obtain s3 where
      s3: "fold (laco_f (Suc l) cf ci vl) ps (Inr (?m, s2)) =
         Inr (fold (passo s (Suc l) cf vl (\<lambda>p. f_puro s l p ci)) ps ?m, s3)"
      "bem_formada s3" "so_memo s2 s3" "persiste s2 s3"
      "\<forall>p\<in>set ps. SaoCompativeis s (Suc l) cf p \<longrightarrow> calculado (memo_em s3 l p ci)"
      by blast
    have f2: "L s2 = L s" "num_possibilidades s2 = num_possibilidades s"
      using dims_so_memo_fields[OF sm2] by simp_all
    have c3: "calculado (memo_em s3 l p ci)"
      using s3(4) s2(5) l p ci unfolding persiste_def f2 by simp
    have "so_memo s1 s3" by (rule so_memo_trans[OF s2(3) s3(3)])
    moreover have "persiste s1 s3"
      by (rule persiste_trans[OF so_memo_mesma_caixa[OF s2(3)] s2(4) s3(4)])
    ultimately show ?thesis using a s3 c3 by auto
  qed
qed

lemma fold_passo_vivo:
  assumes "valor m = -1 \<or>
           (conf m \<in> A \<and> SaoCompativeis s l cf (conf m) \<and> valor (ac (conf m)) \<noteq> -1 \<and>
            valor m = int32 (valor (ac (conf m)) + vl))"
  shows "valor (fold (passo s l cf vl ac) ps m) = -1 \<or>
         (conf (fold (passo s l cf vl ac) ps m) \<in> A \<union> set ps \<and>
          SaoCompativeis s l cf (conf (fold (passo s l cf vl ac) ps m)) \<and>
          valor (ac (conf (fold (passo s l cf vl ac) ps m))) \<noteq> -1 \<and>
          valor (fold (passo s l cf vl ac) ps m) =
            int32 (valor (ac (conf (fold (passo s l cf vl ac) ps m))) + vl))"
  using assms
proof (induction ps arbitrary: m A)
  case Nil
  then show ?case by simp
next
  case (Cons p ps)
  have "valor (passo s l cf vl ac p m) = -1 \<or>
           (conf (passo s l cf vl ac p m) \<in> insert p A \<and>
            SaoCompativeis s l cf (conf (passo s l cf vl ac p m)) \<and>
            valor (ac (conf (passo s l cf vl ac p m))) \<noteq> -1 \<and>
            valor (passo s l cf vl ac p m) = int32 (valor (ac (conf (passo s l cf vl ac p m))) + vl))"
    using Cons.prems by (auto simp: passo_def)
  from Cons.IH[OF this] show ?case by auto
qed

lemma f_puro_Suc_vivo:
  assumes "valor (f_puro s (Suc l) cf ci) \<noteq> -1"
  shows "conf (f_puro s (Suc l) cf ci) < num_possibilidades s \<and>
         EhInternamenteConsistente s (Suc l) cf \<and>
         SaoCompativeis s (Suc l) cf (conf (f_puro s (Suc l) cf ci)) \<and>
         valor (f_puro s l (conf (f_puro s (Suc l) cf ci)) ci) \<noteq> -1 \<and>
         valor (f_puro s (Suc l) cf ci) =
           int32 (valor (f_puro s l (conf (f_puro s (Suc l) cf ci)) ci) + soma_linha s (Suc l) cf)"
proof -
  have e: "EhInternamenteConsistente s (Suc l) cf"
    using assms by (auto simp: f_puro.simps split: if_splits)
  let ?r = "fold (passo s (Suc l) cf (soma_linha s (Suc l) cf) (\<lambda>p. f_puro s l p ci))
               [0..<num_possibilidades s] morta"
  have r: "f_puro s (Suc l) cf ci = ?r" using e by (simp add: f_puro.simps)
  have "valor morta = -1 \<or>
           (conf morta \<in> {} \<and> SaoCompativeis s (Suc l) cf (conf morta) \<and>
            valor (f_puro s l (conf morta) ci) \<noteq> -1 \<and>
            valor morta = int32 (valor (f_puro s l (conf morta) ci) + soma_linha s (Suc l) cf))"
    by simp
  from fold_passo_vivo[where ac = "\<lambda>p. f_puro s l p ci", OF this, of "[0..<num_possibilidades s]"]
  show ?thesis using assms e unfolding r by auto
qed

lemma f_correct:
  assumes "bem_formada s" "l < L s" "cf < num_possibilidades s" "ci < num_possibilidades s"
  shows "\<exists>s'. f s l cf ci = Inr (f_puro s l cf ci, s') \<and> bem_formada s' \<and> so_memo s s' \<and>
              persiste s s' \<and> calculado (memo_em s' l cf ci)"
  using assms
proof (induction l arbitrary: s cf)
  case 0
  have d: "dims s" and ok: "memo_ok s" using "0.prems"(1) by (simp_all add: bem_formada_def)
  have md: "memo_dentro s 0 cf ci"
    using memo_dentro_iff[OF d "0.prems"(2)] "0.prems" by simp
  show ?case
  proof (cases "calculado (memo_em s 0 cf ci)")
    case True
    have "memo_em s 0 cf ci = f_puro s 0 cf ci"
      by (rule memo_okD[OF ok "0.prems"(2,3,4) True])
    then show ?thesis using f_hit[OF md True] True "0.prems"(1) by auto
  next
    case False
    let ?r = "f_puro s 0 cf ci"
    have "f s 0 cf ci = Inr (?r, memo_grava s 0 cf ci ?r)"
    proof (cases "EhInternamenteConsistente s 0 cf")
      case True
      then show ?thesis using f_base[OF md False True] by (simp add: f_puro.simps)
    next
      case e: False
      then show ?thesis using f_incons[OF md False e] by (simp add: f_puro.simps)
    qed
    moreover have "bem_formada (memo_grava s 0 cf ci ?r)"
      by (rule bem_formada_grava[OF "0.prems"]) simp_all
    moreover have "persiste s (memo_grava s 0 cf ci ?r)"
      by (rule persiste_grava[OF d "0.prems"(2,3,4)]) simp
    moreover have "calculado (memo_em (memo_grava s 0 cf ci ?r) 0 cf ci)"
      by (simp add: memo_em_grava[OF d "0.prems"(2,3,4)])
    ultimately show ?thesis by auto
  qed
next
  case (Suc l)
  have d: "dims s" and ok: "memo_ok s" using Suc.prems(1) by (simp_all add: bem_formada_def)
  have md: "memo_dentro s (Suc l) cf ci"
    using memo_dentro_iff[OF d Suc.prems(2)] Suc.prems by simp
  show ?case
  proof (cases "calculado (memo_em s (Suc l) cf ci)")
    case True
    have "memo_em s (Suc l) cf ci = f_puro s (Suc l) cf ci"
      by (rule memo_okD[OF ok Suc.prems(2,3,4) True])
    then show ?thesis using f_hit[OF md True] True Suc.prems(1) by auto
  next
    case False
    let ?r = "f_puro s (Suc l) cf ci"
    show ?thesis
    proof (cases "EhInternamenteConsistente s (Suc l) cf")
      case e: False
      have "f s (Suc l) cf ci = Inr (?r, memo_grava s (Suc l) cf ci ?r)"
        using f_incons[OF md False e] e by (simp add: f_puro.simps)
      moreover have "valor ?r = -1" using e by (simp add: f_puro.simps)
      then have "bem_formada (memo_grava s (Suc l) cf ci ?r)"
        by (intro bem_formada_grava[OF Suc.prems]) simp_all
      moreover have "persiste s (memo_grava s (Suc l) cf ci ?r)"
        by (rule persiste_grava[OF d Suc.prems(2,3,4)]) simp
      moreover have "calculado (memo_em (memo_grava s (Suc l) cf ci ?r) (Suc l) cf ci)"
        by (simp add: memo_em_grava[OF d Suc.prems(2,3,4)])
      ultimately show ?thesis by auto
    next
      case True
      have IH: "\<exists>s2. f s1 l p ci = Inr (f_puro s l p ci, s2) \<and> bem_formada s2 \<and> so_memo s1 s2 \<and>
             persiste s1 s2 \<and> calculado (memo_em s2 l p ci)"
        if "bem_formada s1" "so_memo s s1" "p < num_possibilidades s" for s1 p
      proof -
        have fs: "L s1 = L s" "num_possibilidades s1 = num_possibilidades s"
          using dims_so_memo_fields[OF that(2)] by simp_all
        have "f_puro s1 l p ci = f_puro s l p ci"
          by (rule f_puro_mesma[OF so_memo_mesma_caixa[OF that(2)]])
        then show ?thesis
          using Suc.IH[of s1 p] that Suc.prems fs by simp
      qed
      have ps: "set [0..<num_possibilidades s] \<subseteq> {..<num_possibilidades s}" by auto
      from fold_laco_f[OF IH Suc.prems(2,4) ps Suc.prems(1) so_memo_refl,
          of cf "soma_linha s (Suc l) cf" morta]
      obtain s2 where s2:
        "fold (laco_f (Suc l) cf ci (soma_linha s (Suc l) cf)) [0..<num_possibilidades s]
            (Inr (morta, s)) = Inr (?r, s2)"
        "bem_formada s2" "so_memo s s2" "persiste s s2"
        "\<forall>p\<in>set [0..<num_possibilidades s].
            SaoCompativeis s (Suc l) cf p \<longrightarrow> calculado (memo_em s2 l p ci)"
        using True by (auto simp: f_puro.simps)
      have fs2: "L s2 = L s" "num_possibilidades s2 = num_possibilidades s"
        using dims_so_memo_fields[OF s2(3)] by simp_all
      have d2: "dims s2" using s2(2) by (simp add: bem_formada_def)
      have r2: "f_puro s2 (Suc l) cf ci = ?r"
        by (rule f_puro_mesma[OF so_memo_mesma_caixa[OF s2(3)]])
      let ?s' = "memo_grava s2 (Suc l) cf ci ?r"
      have b2: "Suc l < L s2" "cf < num_possibilidades s2" "ci < num_possibilidades s2"
        using Suc.prems fs2 by simp_all
      have "f s (Suc l) cf ci = Inr (?r, ?s')"
        using f_rec[OF md False True] s2(1) by simp
      moreover have "bem_formada ?s'"
      proof (rule bem_formada_grava[OF s2(2) b2 r2[symmetric]], intro impI)
        assume "0 < Suc l \<and> valor ?r \<noteq> -1"
        then have v: "valor ?r \<noteq> -1" by simp
        from f_puro_Suc_vivo[OF v] s2(5)
        show "calculado (memo_em s2 (Suc l - 1) (conf ?r) ci)" by auto
      qed
      moreover have "so_memo s ?s'"
        by (rule so_memo_trans[OF s2(3)]) simp
      moreover have "persiste s2 ?s'"
        by (rule persiste_grava[OF d2 b2]) simp
      then have "persiste s ?s'"
        by (rule persiste_trans[OF so_memo_mesma_caixa[OF s2(3)] s2(4)])
      moreover have "calculado (memo_em ?s' (Suc l) cf ci)"
        by (simp add: memo_em_grava[OF d2 b2])
      ultimately show ?thesis by auto
    qed
  qed
qed

subsection \<open>The loops of Resolve\<close>

lemma Resolve_ancora_unfold:
  "Resolve_ancora s = fold laco_ancora [0..<num_possibilidades s] (Inr (-1, morta, s))"
  unfolding Resolve_ancora_def laco_ancora_def[abs_def] morta_def ..

lemma Resolve_percorre_unfold:
  "Resolve_percorre conf_inicial_maxima s =
     (case fold (laco_linhas conf_inicial_maxima) (rev [0..<L s]) (Inr (conf_inicial_maxima, s)) of
        Inl err \<Rightarrow> Inl err
      | Inr (cf, s2) \<Rightarrow> Inr s2)"
  unfolding Resolve_percorre_def laco_linhas_def[abs_def] laco_colunas_def[abs_def] ..

lemma com_celulas_fields [simp]:
  "L (com_celulas s cs) = L s"
  "C (com_celulas s cs) = C s"
  "num_possibilidades (com_celulas s cs) = num_possibilidades s"
  "caixa (com_celulas s cs) = caixa s"
  "memo (com_celulas s cs) = memo s"
  "max_valor_caixa (com_celulas s cs) = max_valor_caixa s"
  "num_cristais_usados (com_celulas s cs) = num_cristais_usados s + int (length cs)"
  "cristais_solucao (com_celulas s cs) = cristais_solucao s @ cs"
  by (simp_all add: com_celulas_def)

lemma com_celulas_Nil [simp]: "com_celulas s [] = s"
  by (simp add: com_celulas_def)

lemma com_celulas_append: "com_celulas (com_celulas s a) b = com_celulas s (a @ b)"
  by (simp add: com_celulas_def)

lemma fold_laco_colunas:
  "fold (laco_colunas cf i) js s =
     com_celulas s (map (\<lambda>j. (int i + 1, int j + 1)) (filter (\<lambda>j. GET_BIT cf j = 1) js))"
proof (induction js arbitrary: s)
  case Nil
  then show ?case by simp
next
  case (Cons j js)
  have "laco_colunas cf i j s =
          com_celulas s (if GET_BIT cf j = 1 then [(int i + 1, int j + 1)] else [])"
    by (simp add: laco_colunas_def com_celulas_def)
  then show ?case using Cons.IH by (simp add: com_celulas_append)
qed

subsection \<open>Facts about the pure answer\<close>

lemma GET_BIT_0 [simp]: "GET_BIT 0 j = 0"
  by (simp add: GET_BIT_def)

lemma Eh_0 [simp]: "EhInternamenteConsistente s l 0"
  by (simp add: EhInternamenteConsistente_def list_all_iff)

lemma Sao_0_esq [simp]: "SaoCompativeis s l 0 b"
  by (simp add: SaoCompativeis_def list_all_iff)

lemma Sao_0_dir [simp]: "SaoCompativeis s l a 0"
  by (simp add: SaoCompativeis_def list_all_iff)

lemma fold_soma:
  "int32 a = a \<Longrightarrow>
   fold (\<lambda>j acc. if P j then int32 (acc + g j) else acc) xs a =
     int32 (a + sum_list (map (\<lambda>j. if P j then g j else 0) xs))"
proof (induction xs arbitrary: a)
  case Nil
  then show ?case by simp
next
  case (Cons x xs)
  show ?case
  proof (cases "P x")
    case True
    have "fold (\<lambda>j acc. if P j then int32 (acc + g j) else acc) xs (int32 (a + g x)) =
          int32 (int32 (a + g x) + sum_list (map (\<lambda>j. if P j then g j else 0) xs))"
      by (rule Cons.IH) simp
    then show ?thesis using True by (simp add: add.assoc)
  next
    case False
    then show ?thesis using Cons by simp
  qed
qed

lemma soma_linha_sum:
  "soma_linha s l cf =
     int32 (\<Sum>j\<leftarrow>[0..<C s]. if GET_BIT (int cf) j = 1 then brilho (caixa s ! l ! j) else 0)"
  unfolding soma_linha_def by (simp add: fold_soma)

lemma int32_soma_linha [simp]: "int32 (soma_linha s l cf) = soma_linha s l cf"
  by (simp add: soma_linha_sum)

lemma int32_fold_passo:
  "int32 (valor m) = valor m \<Longrightarrow>
   int32 (valor (fold (passo s l cf vl ac) ps m)) = valor (fold (passo s l cf vl ac) ps m)"
proof (induction ps arbitrary: m)
  case Nil
  then show ?case by simp
next
  case (Cons p ps)
  have "int32 (valor (passo s l cf vl ac p m)) = valor (passo s l cf vl ac p m)"
    using Cons.prems by (simp add: passo_def)
  from Cons.IH[OF this] show ?case by simp
qed

lemma int32_f_puro [simp]: "int32 (valor (f_puro s l cf ci)) = valor (f_puro s l cf ci)"
proof (cases l)
  case 0
  then show ?thesis by (simp add: f_puro.simps)
next
  case (Suc k)
  have "int32 (valor morta) = valor morta" by simp
  from int32_fold_passo[OF this] show ?thesis using Suc
    by (simp add: f_puro.simps)
qed

lemma soma_linha_0 [simp]: "soma_linha s l 0 = 0"
  by (simp add: soma_linha_sum)

lemma fold_passo_mono: "valor m \<le> valor (fold (passo s l cf vl ac) ps m)"
proof (induction ps arbitrary: m)
  case Nil
  then show ?case by simp
next
  case (Cons p ps)
  have "valor m \<le> valor (passo s l cf vl ac p m)" by (simp add: passo_def)
  then show ?case using Cons.IH[of "passo s l cf vl ac p m"] by simp
qed

lemma fold_passo_max:
  assumes "p \<in> set ps" "SaoCompativeis s l cf p" "valor (ac p) \<noteq> -1"
  shows "int32 (valor (ac p) + vl) \<le> valor (fold (passo s l cf vl ac) ps m)"
  using assms(1)
proof (induction ps arbitrary: m)
  case Nil
  then show ?case by simp
next
  case (Cons q ps)
  show ?case
  proof (cases "p = q")
    case True
    have "int32 (valor (ac p) + vl) \<le> valor (passo s l cf vl ac p m)"
      using assms(2,3) by (simp add: passo_def)
    then show ?thesis
      using fold_passo_mono[of "passo s l cf vl ac p m" s l cf vl ac ps] True by simp
  next
    case False
    then show ?thesis using Cons by simp
  qed
qed

lemma f_puro_zero_nonneg:
  assumes "dims s"
  shows "0 \<le> valor (f_puro s l 0 ci)"
proof (induction l)
  case 0
  then show ?case by (simp add: f_puro.simps)
next
  case (Suc l)
  have "0 \<in> set [0..<num_possibilidades s]" using np_pos[OF assms] by simp
  moreover have "valor (f_puro s l 0 ci) \<noteq> -1" using Suc by simp
  ultimately have
    "int32 (valor (f_puro s l 0 ci) + soma_linha s (Suc l) 0) \<le>
       valor (fold (passo s (Suc l) 0 (soma_linha s (Suc l) 0) (\<lambda>p. f_puro s l p ci))
          [0..<num_possibilidades s] morta)"
    by (intro fold_passo_max[where ac = "\<lambda>p. f_puro s l p ci"]) simp_all
  then show ?case using Suc by (simp add: f_puro.simps)
qed

lemma fold_ancora_inv:
  assumes "(cim = -1 \<and> m = morta) \<or>
           (0 \<le> cim \<and> nat cim \<in> A \<and> m = f_puro s (L s - 1) (nat cim) (nat cim) \<and> -1 < valor m)"
  shows "(fst (fold (ancora_passo s) ps (cim, m)) = -1 \<and>
            snd (fold (ancora_passo s) ps (cim, m)) = morta) \<or>
         (0 \<le> fst (fold (ancora_passo s) ps (cim, m)) \<and>
          nat (fst (fold (ancora_passo s) ps (cim, m))) \<in> A \<union> set ps \<and>
          snd (fold (ancora_passo s) ps (cim, m)) =
            f_puro s (L s - 1) (nat (fst (fold (ancora_passo s) ps (cim, m))))
               (nat (fst (fold (ancora_passo s) ps (cim, m)))) \<and>
          -1 < valor (snd (fold (ancora_passo s) ps (cim, m))))"
  using assms
proof (induction ps arbitrary: cim m A)
  case Nil
  then show ?case by simp
next
  case (Cons i ps)
  obtain cim' m' where st: "ancora_passo s i (cim, m) = (cim', m')"
    by (cases "ancora_passo s i (cim, m)")
  have "(cim' = -1 \<and> m' = morta) \<or>
           (0 \<le> cim' \<and> nat cim' \<in> insert i A \<and>
            m' = f_puro s (L s - 1) (nat cim') (nat cim') \<and> -1 < valor m')"
    using Cons.prems st by (auto simp: ancora_passo_def split: if_splits)
  from Cons.IH[OF this] show ?case using st by auto
qed

lemma fold_ancora_mono:
  "valor m \<le> valor (snd (fold (ancora_passo s) ps (cim, m)))"
proof (induction ps arbitrary: cim m)
  case Nil
  then show ?case by simp
next
  case (Cons i ps)
  obtain cim' m' where st: "ancora_passo s i (cim, m) = (cim', m')"
    by (cases "ancora_passo s i (cim, m)")
  have "valor m \<le> valor m'" using st by (auto simp: ancora_passo_def split: if_splits)
  then show ?case using Cons.IH[of m' cim'] st by simp
qed

lemma fold_ancora_max:
  assumes "i \<in> set ps"
  shows "valor (f_puro s (L s - 1) i i) \<le> valor (snd (fold (ancora_passo s) ps (cim, m)))"
  using assms
proof (induction ps arbitrary: cim m)
  case Nil
  then show ?case by simp
next
  case (Cons q ps)
  obtain cim' m' where st: "ancora_passo s q (cim, m) = (cim', m')"
    by (cases "ancora_passo s q (cim, m)")
  show ?case
  proof (cases "i = q")
    case True
    have "valor (f_puro s (L s - 1) i i) \<le> valor m'"
      using st True by (auto simp: ancora_passo_def split: if_splits)
    then show ?thesis using fold_ancora_mono[of m' s ps cim'] st by simp
  next
    case False
    then show ?thesis using Cons st by simp
  qed
qed

lemma ancora_props:
  assumes "dims s"
  shows "0 \<le> fst (ancora s)" "nat (fst (ancora s)) < num_possibilidades s"
    "snd (ancora s) = f_puro s (L s - 1) (nat (fst (ancora s))) (nat (fst (ancora s)))"
    "0 \<le> valor (snd (ancora s))"
proof -
  have z: "0 \<in> set [0..<num_possibilidades s]" using np_pos[OF assms] by simp
  have v: "0 \<le> valor (snd (ancora s))"
    using fold_ancora_max[OF z, of s "-1" morta] f_puro_zero_nonneg[OF assms, of "L s - 1" 0]
    unfolding ancora_def by simp
  have "(- 1 = (-1::int) \<and> morta = morta) \<or>
           (0 \<le> (-1::int) \<and> nat (-1) \<in> {} \<and> morta = f_puro s (L s - 1) (nat (-1)) (nat (-1)) \<and>
            -1 < valor morta)"
    by simp
  from fold_ancora_inv[OF this, of "[0..<num_possibilidades s]"] v
  show "0 \<le> fst (ancora s)" "nat (fst (ancora s)) < num_possibilidades s"
    "snd (ancora s) = f_puro s (L s - 1) (nat (fst (ancora s))) (nat (fst (ancora s)))"
    unfolding ancora_def by auto
  show "0 \<le> valor (snd (ancora s))" by (rule v)
qed

subsection \<open>What Resolve computes\<close>

lemma fold_laco_ancora:
  assumes l: "0 < L s"
    and ps: "set ps \<subseteq> {..<num_possibilidades s}"
    and s1: "bem_formada s1" "so_memo s s1"
  shows "\<exists>s2. fold laco_ancora ps (Inr (cim, m, s1)) =
            Inr (fst (fold (ancora_passo s) ps (cim, m)),
                 snd (fold (ancora_passo s) ps (cim, m)), s2) \<and>
          bem_formada s2 \<and> so_memo s1 s2 \<and> persiste s1 s2 \<and>
          (\<forall>i\<in>set ps. calculado (memo_em s2 (L s - 1) i i))"
  using ps s1
proof (induction ps arbitrary: cim m s1)
  case Nil
  then show ?case by simp
next
  case (Cons i ps)
  have i: "i < num_possibilidades s" and ps: "set ps \<subseteq> {..<num_possibilidades s}"
    using Cons.prems(1) by auto
  have mc1: "mesma_caixa s s1" by (rule so_memo_mesma_caixa[OF Cons.prems(3)])
  have fs1: "L s1 = L s" "num_possibilidades s1 = num_possibilidades s"
    using dims_so_memo_fields[OF Cons.prems(3)] by simp_all
  have "\<exists>s'. f s1 (L s - 1) i i = Inr (f_puro s1 (L s - 1) i i, s') \<and> bem_formada s' \<and>
          so_memo s1 s' \<and> persiste s1 s' \<and> calculado (memo_em s' (L s - 1) i i)"
    using l i fs1 by (intro f_correct[OF Cons.prems(2)]) simp_all
  then obtain s2 where
    s2: "f s1 (L s - 1) i i = Inr (f_puro s (L s - 1) i i, s2)" "bem_formada s2" "so_memo s1 s2"
          "persiste s1 s2" "calculado (memo_em s2 (L s - 1) i i)"
    using f_puro_mesma[OF mc1] by auto
  obtain cim' m' where st: "ancora_passo s i (cim, m) = (cim', m')"
    by (cases "ancora_passo s i (cim, m)")
  have a: "laco_ancora i (Inr (cim, m, s1)) = Inr (cim', m', s2)"
    using st s2(1) l by (auto simp: laco_ancora_def fs1 ancora_passo_def split: if_splits)
  have sm2: "so_memo s s2" by (rule so_memo_trans[OF Cons.prems(3) s2(3)])
  from Cons.IH[OF ps s2(2) sm2, of cim' m'] obtain s3 where
    s3: "fold laco_ancora ps (Inr (cim', m', s2)) =
            Inr (fst (fold (ancora_passo s) ps (cim', m')),
                 snd (fold (ancora_passo s) ps (cim', m')), s3)"
      "bem_formada s3" "so_memo s2 s3" "persiste s2 s3"
      "\<forall>i\<in>set ps. calculado (memo_em s3 (L s - 1) i i)"
    by blast
  have f2: "L s2 = L s" "num_possibilidades s2 = num_possibilidades s"
    using dims_so_memo_fields[OF sm2] by simp_all
  have c3: "calculado (memo_em s3 (L s - 1) i i)"
    using s3(4) s2(5) l i unfolding persiste_def f2 by simp
  have "so_memo s1 s3" by (rule so_memo_trans[OF s2(3) s3(3)])
  moreover have "persiste s1 s3"
    by (rule persiste_trans[OF so_memo_mesma_caixa[OF s2(3)] s2(4) s3(4)])
  ultimately show ?case using a st s3 c3 by auto
qed

lemma com_celulas_mesma [simp]: "mesma_caixa s (com_celulas s cs)"
  by (simp add: mesma_caixa_def)

lemma memo_em_com_celulas [simp]: "memo_em (com_celulas s cs) = memo_em s"
  by (simp add: fun_eq_iff memo_em_def)

lemma memo_dentro_com_celulas [simp]: "memo_dentro (com_celulas s cs) = memo_dentro s"
  by (simp add: fun_eq_iff memo_dentro_def)

lemma celulas_ate_mesma:
  "mesma_caixa s s' \<Longrightarrow> celulas_ate s' k cf ci = celulas_ate s k cf ci"
  by (induction k arbitrary: cf) (simp_all add: f_puro_mesma[of s s'] mesma_caixa_def)

lemma leituras_Suc:
  "k < L s \<Longrightarrow>
   leituras s (Suc k) cf ci = (k, cf, ci) # leituras s k (conf (memo_em s k cf ci)) ci"
  by simp

lemma fold_laco_linhas:
  assumes k: "k \<le> L s"
    and inb: "list_all (\<lambda>(i, cf', ci'). memo_dentro s i cf' ci') (leituras s k cf ci)"
  shows "\<exists>cf'. fold (laco_linhas (int ci)) (rev [0..<k]) (Inr (int cf, com_celulas s cs)) =
            Inr (cf', com_celulas s (cs @ emitidas s (leituras s k cf ci)))"
  using k inb
proof (induction k arbitrary: cf cs)
  case 0
  then show ?case by (simp add: emitidas_def)
next
  case (Suc k)
  have kl: "k < L s" using Suc.prems(1) by simp
  have m: "(k + L s) mod L s = k" using kl by simp
  let ?cf' = "conf (memo_em s k cf ci)"
  note lk = leituras_Suc[OF kl]
  have md: "memo_dentro s k cf ci" using Suc.prems(2) unfolding lk by simp
  have step: "laco_linhas (int ci) k (Inr (int cf, com_celulas s cs)) =
          Inr (int ?cf', com_celulas s (cs @ emite (C s) k (int cf)))"
    using md kl by (simp add: laco_linhas_def fold_laco_colunas com_celulas_append emite_def Let_def)
  have inb': "list_all (\<lambda>(i, cf', ci'). memo_dentro s i cf' ci') (leituras s k ?cf' ci)"
    using Suc.prems(2) unfolding lk by simp
  from Suc.IH[OF _ inb', of "cs @ emite (C s) k (int cf)"] kl
  obtain cf'' where
    "fold (laco_linhas (int ci)) (rev [0..<k])
        (Inr (int ?cf', com_celulas s (cs @ emite (C s) k (int cf)))) =
       Inr (cf'', com_celulas s ((cs @ emite (C s) k (int cf)) @ emitidas s (leituras s k ?cf' ci)))"
    by auto
  then show ?case using step unfolding lk by (simp add: emitidas_def)
qed

lemma fold_laco_linhas_Inl: "fold (laco_linhas ci) is (Inl err) = Inl err"
  by (induction "is") (simp_all add: laco_linhas_def)

lemma fold_laco_linhas_fora:
  assumes k: "k \<le> L s"
    and fora: "\<not> list_all (\<lambda>(i, cf', ci'). memo_dentro s i cf' ci') (leituras s k cf ci)"
  shows "fold (laco_linhas (int ci)) (rev [0..<k]) (Inr (int cf, com_celulas s cs)) =
           Inl ForaDosLimites"
  using k fora
proof (induction k arbitrary: cf cs)
  case 0
  then show ?case by simp
next
  case (Suc k)
  have kl: "k < L s" using Suc.prems(1) by simp
  note lk = leituras_Suc[OF kl]
  let ?cf' = "conf (memo_em s k cf ci)"
  show ?case
  proof (cases "memo_dentro s k cf ci")
    case True
    have step: "laco_linhas (int ci) k (Inr (int cf, com_celulas s cs)) =
          Inr (int ?cf', com_celulas s (cs @ emite (C s) k (int cf)))"
      using True kl
      by (simp add: laco_linhas_def fold_laco_colunas com_celulas_append emite_def Let_def)
    have "\<not> list_all (\<lambda>(i, cf', ci'). memo_dentro s i cf' ci') (leituras s k ?cf' ci)"
      using Suc.prems(2) True unfolding lk by simp
    from Suc.IH[OF _ this, of "cs @ emite (C s) k (int cf)"] kl step
    show ?thesis by simp
  next
    case False
    have "laco_linhas (int ci) k (Inr (int cf, com_celulas s cs)) = Inl ForaDosLimites"
      using False kl
      by (simp add: laco_linhas_def fold_laco_colunas com_celulas_append Let_def)
    then show ?thesis by (simp add: fold_laco_linhas_Inl)
  qed
qed

lemma Resolve_percorre_leituras:
  "Resolve_percorre (int ci) s =
     (if list_all (\<lambda>(i, cf', ci'). memo_dentro s i cf' ci') (leituras s (L s) ci ci)
      then Inr (com_celulas s (emitidas s (leituras s (L s) ci ci)))
      else Inl ForaDosLimites)"
proof (cases "list_all (\<lambda>(i, cf', ci'). memo_dentro s i cf' ci') (leituras s (L s) ci ci)")
  case True
  from fold_laco_linhas[OF order_refl True, of "[]"] True
  show ?thesis unfolding Resolve_percorre_unfold by auto
next
  case False
  from fold_laco_linhas_fora[OF order_refl False, of "[]"] False
  show ?thesis unfolding Resolve_percorre_unfold by simp
qed

lemma leituras_vivas:
  assumes bf: "dims s" "memo_ok s"
    and k: "k \<le> L s" and ci: "ci < num_possibilidades s"
    and cf: "cf < num_possibilidades s"
    and viva: "0 < k \<longrightarrow> calculado (memo_em s (k - 1) cf ci) \<and> valor (f_puro s (k - 1) cf ci) \<noteq> -1"
  shows "list_all (\<lambda>(i, cf', ci'). memo_dentro s i cf' ci' \<and> calculado (memo_em s i cf' ci'))
           (leituras s k cf ci) \<and>
         emitidas s (leituras s k cf ci) = celulas_ate s k cf ci"
  using k cf viva
proof (induction k arbitrary: cf)
  case 0
  then show ?case by (simp add: emitidas_def)
next
  case (Suc k)
  have kl: "k < L s" using Suc.prems(1) by simp
  have m: "(k + L s) mod L s = k" using kl by simp
  have c: "calculado (memo_em s k cf ci)" and v: "valor (f_puro s k cf ci) \<noteq> -1"
    using Suc.prems(3) by simp_all
  have e: "memo_em s k cf ci = f_puro s k cf ci"
    by (rule memo_okD[OF bf(2) kl Suc.prems(2) ci c])
  let ?cf' = "conf (f_puro s k cf ci)"
  have cf': "?cf' < num_possibilidades s" by (rule conf_f_puro_lt[OF bf(1) ci])
  have md: "memo_dentro s k cf ci"
    using memo_dentro_iff[OF bf(1) kl] Suc.prems(2) ci by simp
  have viva': "0 < k \<longrightarrow> calculado (memo_em s (k - 1) ?cf' ci) \<and>
                 valor (f_puro s (k - 1) ?cf' ci) \<noteq> -1"
  proof
    assume "0 < k"
    then obtain k' where k': "k = Suc k'" by (cases k) auto
    have "calculado (memo_em s (k - 1) ?cf' ci)"
      using memo_ok_fecho[OF bf(2) kl Suc.prems(2) ci c \<open>0 < k\<close> v] .
    moreover have "valor (f_puro s (k - 1) ?cf' ci) \<noteq> -1"
      using f_puro_Suc_vivo[of s k' cf ci] v unfolding k' by simp
    ultimately show "calculado (memo_em s (k - 1) ?cf' ci) \<and>
                 valor (f_puro s (k - 1) ?cf' ci) \<noteq> -1" by simp
  qed
  from Suc.IH[OF _ cf' viva'] kl have
    "list_all (\<lambda>(i, cf', ci'). memo_dentro s i cf' ci' \<and> calculado (memo_em s i cf' ci'))
           (leituras s k ?cf' ci)"
    "emitidas s (leituras s k ?cf' ci) = celulas_ate s k ?cf' ci"
    by simp_all
  then show ?case using md c unfolding leituras_Suc[OF kl] by (simp add: e emitidas_def)
qed

lemma memo_ok_cong:
  assumes "mesma_caixa s s'" "memo s' = memo s"
  shows "memo_ok s' = memo_ok s"
proof -
  have "memo_em s' = memo_em s" using assms(2) by (simp add: fun_eq_iff memo_em_def)
  moreover have "f_puro s' = f_puro s" using f_puro_mesma[OF assms(1)] by (simp add: fun_eq_iff)
  ultimately show ?thesis using assms(1) by (simp add: memo_ok_def mesma_caixa_def)
qed

lemma dims_cong:
  "mesma_caixa s s' \<Longrightarrow> memo s' = memo s \<Longrightarrow> dims s' = dims s"
  by (simp add: dims_def mesma_caixa_def)

lemma bem_formada_cong:
  "mesma_caixa s s' \<Longrightarrow> memo s' = memo s \<Longrightarrow> bem_formada s' = bem_formada s"
  by (simp add: bem_formada_def dims_cong memo_ok_cong)

lemma ancora_mesma: "mesma_caixa s s' \<Longrightarrow> ancora s' = ancora s"
proof -
  assume a: "mesma_caixa s s'"
  have "ancora_passo s' = ancora_passo s"
    using a f_puro_mesma[OF a] by (simp add: fun_eq_iff ancora_passo_def mesma_caixa_def)
  then show ?thesis using a by (simp add: ancora_def mesma_caixa_def)
qed

lemma solucao_mesma: "mesma_caixa s s' \<Longrightarrow> solucao s' = solucao s"
  using celulas_ate_mesma[of s s'] ancora_mesma[of s s']
  by (simp add: solucao_def mesma_caixa_def)

lemma so_memo_contadores:
  assumes "so_memo s s1"
  shows "num_cristais_usados s1 = num_cristais_usados s" "cristais_solucao s1 = cristais_solucao s"
    "max_valor_caixa s1 = max_valor_caixa s" "N s1 = N s"
proof -
  have "s1 = s\<lparr>memo := memo s1\<rparr>" using assms by (simp add: so_memo_def)
  then have "num_cristais_usados s1 = num_cristais_usados (s\<lparr>memo := memo s1\<rparr>)"
    "cristais_solucao s1 = cristais_solucao (s\<lparr>memo := memo s1\<rparr>)"
    "max_valor_caixa s1 = max_valor_caixa (s\<lparr>memo := memo s1\<rparr>)"
    "N s1 = N (s\<lparr>memo := memo s1\<rparr>)"
    by simp_all
  then show "num_cristais_usados s1 = num_cristais_usados s"
    "cristais_solucao s1 = cristais_solucao s"
    "max_valor_caixa s1 = max_valor_caixa s" "N s1 = N s"
    by simp_all
qed

lemma Resolve_ancora_spec:
  assumes bf: "bem_formada s" and l: "0 < L s"
  shows "\<exists>s1. Resolve_ancora s = Inr (fst (ancora s), snd (ancora s), s1) \<and>
           bem_formada s1 \<and> so_memo s s1 \<and> persiste s s1 \<and>
           (\<forall>i<num_possibilidades s. calculado (memo_em s1 (L s - 1) i i))"
proof -
  have ps: "set [0..<num_possibilidades s] \<subseteq> {..<num_possibilidades s}" by auto
  from fold_laco_ancora[OF l ps bf so_memo_refl, of "-1" morta]
  show ?thesis unfolding ancora_def Resolve_ancora_unfold by auto
qed

lemma Resolve_percorre_spec:
  assumes bf: "bem_formada t" and ci: "ci < num_possibilidades t"
    and viva: "0 < L t \<longrightarrow> calculado (memo_em t (L t - 1) ci ci) \<and>
                 valor (f_puro t (L t - 1) ci ci) \<noteq> -1"
  shows "Resolve_percorre (int ci) t = Inr (com_celulas t (celulas_ate t (L t) ci ci))"
    and "list_all (\<lambda>(i, cf', ci'). memo_dentro t i cf' ci' \<and> calculado (memo_em t i cf' ci'))
           (leituras t (L t) ci ci)"
proof -
  have dt: "dims t" and okt: "memo_ok t" using bf by (simp_all add: bem_formada_def)
  note lv = leituras_vivas[OF dt okt order_refl ci ci viva]
  then show "list_all (\<lambda>(i, cf', ci'). memo_dentro t i cf' ci' \<and> calculado (memo_em t i cf' ci'))
           (leituras t (L t) ci ci)" by simp
  have "list_all (\<lambda>(i, cf', ci'). memo_dentro t i cf' ci') (leituras t (L t) ci ci)"
    using lv by (auto simp: list_all_iff)
  from fold_laco_linhas[OF order_refl this, of "[]"] lv
  show "Resolve_percorre (int ci) t = Inr (com_celulas t (celulas_ate t (L t) ci ci))"
    unfolding Resolve_percorre_unfold by auto
qed

lemma Resolve_spec:
  assumes bf: "bem_formada s" and l: "0 < L s"
  shows "\<exists>s'. Resolve s = Inr s' \<and>
           max_valor_caixa s' = valor (snd (ancora s)) \<and>
           num_cristais_usados s' = num_cristais_usados s + int (length (solucao s)) \<and>
           cristais_solucao s' = cristais_solucao s @ solucao s \<and>
           mesma_caixa s s' \<and> bem_formada s'"
proof -
  have d: "dims s" using bf by (simp add: bem_formada_def)
  from Resolve_ancora_spec[OF bf l]
  obtain s1 where s1:
    "Resolve_ancora s = Inr (fst (ancora s), snd (ancora s), s1)"
    "bem_formada s1" "so_memo s s1"
    "\<forall>i<num_possibilidades s. calculado (memo_em s1 (L s - 1) i i)"
    by blast
  let ?ci = "nat (fst (ancora s))"
  let ?t = "s1\<lparr>max_valor_caixa := valor (snd (ancora s))\<rparr>"
  note ap = ancora_props[OF d]
  have mc1: "mesma_caixa s s1" by (rule so_memo_mesma_caixa[OF s1(3)])
  have mct: "mesma_caixa s1 ?t" by (simp add: mesma_caixa_def)
  have mc: "mesma_caixa s ?t" by (rule mesma_caixa_trans[OF mc1 mct])
  have bft: "bem_formada ?t" using bem_formada_cong[OF mct] s1(2) by simp
  have ft: "L ?t = L s" "num_possibilidades ?t = num_possibilidades s"
    using mc by (simp_all add: mesma_caixa_def)
  have emt: "memo_em ?t = memo_em s1" by (simp add: fun_eq_iff memo_em_def)
  have viva: "0 < L ?t \<longrightarrow> calculado (memo_em ?t (L ?t - 1) ?ci ?ci) \<and>
                valor (f_puro ?t (L ?t - 1) ?ci ?ci) \<noteq> -1"
    using s1(4) ap f_puro_mesma[OF mc, of "L s - 1" ?ci ?ci] unfolding emt ft by auto
  have ci: "?ci < num_possibilidades ?t" using ap(2) ft by simp
  have "Resolve_percorre (int ?ci) ?t = Inr (com_celulas ?t (celulas_ate ?t (L ?t) ?ci ?ci))"
    by (rule Resolve_percorre_spec(1)[OF bft ci viva])
  moreover have "celulas_ate ?t (L ?t) ?ci ?ci = solucao s"
    using celulas_ate_mesma[OF mc] ft by (simp add: solucao_def)
  ultimately have R: "Resolve s = Inr (com_celulas ?t (solucao s))"
    using ap(1) unfolding Resolve_def s1(1) by simp
  note nums = so_memo_contadores[OF s1(3)]
  have "mesma_caixa s (com_celulas ?t (solucao s))"
    by (rule mesma_caixa_trans[OF mc]) simp
  moreover have "bem_formada (com_celulas ?t (solucao s))"
    using bem_formada_cong[of ?t "com_celulas ?t (solucao s)"] bft by simp
  ultimately show ?thesis using R nums by simp
qed

lemma fold_laco_ancora_Inl: "fold laco_ancora ps (Inl err) = Inl err"
  by (induction ps) (simp_all add: laco_ancora_def)

lemma Resolve_sem_linhas:
  assumes "dims s" "L s = 0"
  shows "Resolve s = Inl ForaDosLimites"
proof -
  have "[0..<num_possibilidades s] = 0 # [Suc 0..<num_possibilidades s]"
    using np_pos[OF assms(1)] by (simp add: upt_conv_Cons)
  then have "Resolve_ancora s = Inl ForaDosLimites"
    unfolding Resolve_ancora_unfold using assms(2)
    by (simp add: laco_ancora_def fold_laco_ancora_Inl)
  then show ?thesis by (simp add: Resolve_def)
qed

subsection \<open>Freshly built boxes\<close>

lemma AdicionaCristal_eq:
  "AdicionaCristal s x y v d c e b =
     (if 1 \<le> x \<and> nat (x - 1) < length (caixa s) \<and>
         1 \<le> y \<and> nat (y - 1) < length (caixa s ! nat (x - 1))
      then Inr (poe s (nat (x - 1)) (nat (y - 1)) \<lparr>brilho = v, conexoes = mascara d c e b\<rparr>)
      else Inl ForaDosLimites)"
  by (simp add: AdicionaCristal_def mascara_def poe_def Let_def)

lemma poe_fields [simp]:
  "L (poe s i j cr) = L s"
  "C (poe s i j cr) = C s"
  "N (poe s i j cr) = N s"
  "num_possibilidades (poe s i j cr) = num_possibilidades s"
  "num_cristais_usados (poe s i j cr) = num_cristais_usados s"
  "max_valor_caixa (poe s i j cr) = max_valor_caixa s"
  "cristais_solucao (poe s i j cr) = cristais_solucao s"
  "memo (poe s i j cr) = memo s"
  by (simp_all add: poe_def)

lemma caixa_poe:
  "i < length (caixa s) \<Longrightarrow> j < length (caixa s ! i) \<Longrightarrow>
   caixa (poe s i j cr) ! r ! k = (if r = i \<and> k = j then cr else caixa s ! r ! k)"
  by (auto simp: poe_def nth_list_update)

lemma dims_poe: "dims s \<Longrightarrow> dims (poe s i j cr)"
  unfolding dims_def by (auto simp: poe_def length_nth_upd)

lemma memo_em_poe [simp]: "memo_em (poe s i j cr) = memo_em s"
  by (simp add: fun_eq_iff memo_em_def)

lemma fresca_poe: "fresca s \<Longrightarrow> fresca (poe s i j cr)"
  by (simp add: fresca_def dims_poe)

lemma fresca_nova: "fresca (nova_Cifra l c n)"
  by (simp add: fresca_def dims_def nova_Cifra_def memo_em_def Resposta_padrao_def)

lemma fresca_bem_formada: "fresca s \<Longrightarrow> bem_formada s"
  by (simp add: fresca_def bem_formada_def memo_ok_def)

lemma le_cristais_fresca:
  "le_cristais s rs = Inr t \<Longrightarrow> fresca s \<Longrightarrow>
   fresca t \<and> L t = L s \<and> C t = C s \<and> N t = N s"
proof (induction rs arbitrary: s)
  case Nil
  then show ?case by simp
next
  case (Cons r rs)
  obtain x y v d c e b where r: "r = (x, y, v, d, c, e, b)" by (cases r)
  from Cons.prems(1) obtain s1 where
    s1: "AdicionaCristal s x y v d c e b = Inr s1" "le_cristais s1 rs = Inr t"
    unfolding r by (auto split: sum.splits)
  have "s1 = poe s (nat (x - 1)) (nat (y - 1)) \<lparr>brilho = v, conexoes = mascara d c e b\<rparr>"
    using s1(1) by (auto simp: AdicionaCristal_eq split: if_splits)
  then have "fresca s1 \<and> L s1 = L s \<and> C s1 = C s \<and> N s1 = N s"
    using Cons.prems(2) by (simp add: fresca_poe)
  then show ?case using Cons.IH[OF s1(2)] by simp
qed

lemma construida:
  assumes "le_cristais (nova_Cifra l c n) rs = Inr s"
  shows "fresca s" "bem_formada s" "dims s" "L s = l" "C s = c" "num_possibilidades s = 2 ^ c"
    "num_cristais_usados s = 0" "cristais_solucao s = []"
proof -
  from le_cristais_fresca[OF assms fresca_nova]
  have a: "fresca s" "L s = L (nova_Cifra l c n)" "C s = C (nova_Cifra l c n)" by simp_all
  then show "fresca s" "L s = l" "C s = c" by (simp_all add: nova_Cifra_def)
  then show "bem_formada s" "dims s" "num_possibilidades s = 2 ^ c"
    "num_cristais_usados s = 0" "cristais_solucao s = []"
    using fresca_bem_formada[of s] by (auto simp: fresca_def bem_formada_def dims_def)
qed

subsection \<open>The chain of configurations\<close>

lemma length_cadeia [simp]: "length (cadeia s k cf ci) = k"
  by (induction k arbitrary: cf) simp_all

lemma cadeia_ultimo: "cadeia s (Suc k) cf ci ! k = cf"
  by (simp add: nth_append)

lemma cadeia_antes:
  "i < k \<Longrightarrow> cadeia s (Suc k) cf ci ! i = cadeia s k (conf (f_puro s k cf ci)) ci ! i"
  by (simp add: nth_append)

lemma celulas_ate_cadeia:
  "celulas_ate s k cf ci =
     concat (map (\<lambda>i. emite (C s) i (int (cadeia s k cf ci ! i))) (rev [0..<k]))"
proof (induction k arbitrary: cf)
  case 0
  then show ?case by simp
next
  case (Suc k)
  let ?cf' = "conf (f_puro s k cf ci)"
  have mp: "map (\<lambda>i. emite (C s) i (int (cadeia s (Suc k) cf ci ! i))) (rev [0..<k]) =
        map (\<lambda>i. emite (C s) i (int (cadeia s k ?cf' ci ! i))) (rev [0..<k])"
    by (rule map_cong) (simp_all add: nth_append)
  have "celulas_ate s (Suc k) cf ci = emite (C s) k (int cf) @ celulas_ate s k ?cf' ci"
    by simp
  also have "\<dots> = emite (C s) k (int (cadeia s (Suc k) cf ci ! k)) @
       concat (map (\<lambda>i. emite (C s) i (int (cadeia s k ?cf' ci ! i))) (rev [0..<k]))"
    unfolding cadeia_ultimo Suc.IH[of ?cf'] ..
  also have "\<dots> = emite (C s) k (int (cadeia s (Suc k) cf ci ! k)) @
       concat (map (\<lambda>i. emite (C s) i (int (cadeia s (Suc k) cf ci ! i))) (rev [0..<k]))"
    unfolding mp ..
  also have "\<dots> =
       concat (map (\<lambda>i. emite (C s) i (int (cadeia s (Suc k) cf ci ! i))) (rev [0..<Suc k]))"
    by (simp del: cadeia.simps)
  finally show ?case .
qed

lemma emite_mem:
  "(x, y) \<in> set (emite c i cf) \<longleftrightarrow> x = int i + 1 \<and> (\<exists>j<c. y = int j + 1 \<and> GET_BIT cf j = 1)"
  by (auto simp: emite_def)

lemma celulas_mem:
  "(x, y) \<in> set (celulas_ate s k cf ci) \<longleftrightarrow>
     (\<exists>i<k. \<exists>j<C s. x = int i + 1 \<and> y = int j + 1 \<and>
        GET_BIT (int (cadeia s k cf ci ! i)) j = 1)"
  unfolding celulas_ate_cadeia by (auto simp: emite_mem)

lemma f_puro_0_vivo:
  assumes "valor (f_puro s 0 cf ci) \<noteq> -1"
  shows "EhInternamenteConsistente s 0 cf" "SaoCompativeis s 0 cf ci"
    "valor (f_puro s 0 cf ci) = soma_linha s 0 cf"
  using assms by (auto simp: f_puro.simps split: if_splits)

lemma cadeia_props:
  assumes "valor (f_puro s k cf ci) \<noteq> -1"
  shows "(\<forall>i\<le>k. EhInternamenteConsistente s i (cadeia s (Suc k) cf ci ! i)) \<and>
         (\<forall>i<k. SaoCompativeis s (Suc i) (cadeia s (Suc k) cf ci ! Suc i)
                    (cadeia s (Suc k) cf ci ! i)) \<and>
         SaoCompativeis s 0 (cadeia s (Suc k) cf ci ! 0) ci"
  using assms
proof (induction k arbitrary: cf)
  case 0
  then show ?case using f_puro_0_vivo[of s cf ci] by simp
next
  case (Suc k)
  let ?cf' = "conf (f_puro s (Suc k) cf ci)"
  let ?c = "cadeia s (Suc k) ?cf' ci"
  note v = f_puro_Suc_vivo[OF Suc.prems]
  then have v': "valor (f_puro s k ?cf' ci) \<noteq> -1" by simp
  note ih = Suc.IH[OF v']
  have n1: "cadeia s (Suc (Suc k)) cf ci ! i = ?c ! i" if "i \<le> k" for i
    using that cadeia_antes[of i "Suc k" s cf ci] by simp
  have n2: "cadeia s (Suc (Suc k)) cf ci ! Suc k = cf"
    by (rule cadeia_ultimo)
  have ck: "?c ! k = ?cf'" by (rule cadeia_ultimo)
  have a: "\<forall>i\<le>Suc k. EhInternamenteConsistente s i (cadeia s (Suc (Suc k)) cf ci ! i)"
  proof (intro allI impI)
    fix i assume "i \<le> Suc k"
    then consider "i \<le> k" | "i = Suc k" by linarith
    then show "EhInternamenteConsistente s i (cadeia s (Suc (Suc k)) cf ci ! i)"
    proof cases
      case 1
      then show ?thesis using ih n1 by simp
    next
      case 2
      then show ?thesis using v n2 by simp
    qed
  qed
  have b: "\<forall>i<Suc k. SaoCompativeis s (Suc i) (cadeia s (Suc (Suc k)) cf ci ! Suc i)
                    (cadeia s (Suc (Suc k)) cf ci ! i)"
  proof (intro allI impI)
    fix i assume "i < Suc k"
    then consider "i < k" | "i = k" by linarith
    then show "SaoCompativeis s (Suc i) (cadeia s (Suc (Suc k)) cf ci ! Suc i)
                    (cadeia s (Suc (Suc k)) cf ci ! i)"
    proof cases
      case 1
      then show ?thesis using ih n1[of i] n1[of "Suc i"] by simp
    next
      case 2
      then show ?thesis using v n2 n1[of k] ck by simp
    qed
  qed
  have c: "SaoCompativeis s 0 (cadeia s (Suc (Suc k)) cf ci ! 0) ci"
    using ih n1[of 0] by simp
  show ?case using a b c by blast
qed

lemma sum_emite:
  "(\<Sum>(x, y)\<leftarrow>emite c i cf. brilho (caixa s ! nat (x - 1) ! nat (y - 1))) =
   (\<Sum>j\<leftarrow>[0..<c]. if GET_BIT cf j = 1 then brilho (caixa s ! i ! j) else 0)"
proof -
  have "(\<Sum>(x, y)\<leftarrow>emite c i cf. brilho (caixa s ! nat (x - 1) ! nat (y - 1))) =
        sum_list (map (\<lambda>j. brilho (caixa s ! i ! j)) (filter (\<lambda>j. GET_BIT cf j = 1) (rev [0..<c])))"
    by (simp add: emite_def comp_def)
  also have "\<dots> = sum_list (rev (map (\<lambda>j. brilho (caixa s ! i ! j))
                      (filter (\<lambda>j. GET_BIT cf j = 1) [0..<c])))"
    by (simp add: rev_map rev_filter)
  also have "\<dots> = (\<Sum>j\<leftarrow>[0..<c]. if GET_BIT cf j = 1 then brilho (caixa s ! i ! j) else 0)"
    by (simp add: sum_list_rev sum_list_map_filter')
  finally show ?thesis .
qed

lemma valor_soma_celulas:
  assumes "valor (f_puro s k cf ci) \<noteq> -1"
  shows "valor (f_puro s k cf ci) =
         int32 (\<Sum>(x, y)\<leftarrow>celulas_ate s (Suc k) cf ci. brilho (caixa s ! nat (x - 1) ! nat (y - 1)))"
  using assms
proof (induction k arbitrary: cf)
  case 0
  then show ?case
    using f_puro_0_vivo(3)[OF 0] by (simp add: sum_emite soma_linha_sum)
next
  case (Suc k)
  note v = f_puro_Suc_vivo[OF Suc.prems]
  then have v': "valor (f_puro s k (conf (f_puro s (Suc k) cf ci)) ci) \<noteq> -1" by simp
  let ?g = "\<lambda>(x, y). brilho (caixa s ! nat (x - 1) ! nat (y - 1))"
  let ?p = "conf (f_puro s (Suc k) cf ci)"
  have c: "celulas_ate s (Suc (Suc k)) cf ci =
          emite (C s) (Suc k) (int cf) @ celulas_ate s (Suc k) ?p ci"
    by simp
  have e: "soma_linha s (Suc k) cf = int32 (sum_list (map ?g (emite (C s) (Suc k) (int cf))))"
    by (simp only: sum_emite soma_linha_sum)
  have "valor (f_puro s (Suc k) cf ci) =
          int32 (valor (f_puro s k ?p ci) + soma_linha s (Suc k) cf)"
    using v by simp
  also have "\<dots> = int32 (int32 (sum_list (map ?g (celulas_ate s (Suc k) ?p ci))) +
                          int32 (sum_list (map ?g (emite (C s) (Suc k) (int cf)))))"
    by (simp only: Suc.IH[OF v'] e)
  also have "\<dots> = int32 (sum_list (map ?g (emite (C s) (Suc k) (int cf))) +
                          sum_list (map ?g (celulas_ate s (Suc k) ?p ci)))"
    by (simp add: add.commute)
  also have "\<dots> = int32 (sum_list (map ?g (celulas_ate s (Suc (Suc k)) cf ci)))"
    by (simp only: c map_append sum_list_append)
  finally show ?case .
qed

subsection \<open>Claims C1, C2 and C3\<close>

lemma EhD:
  assumes "EhInternamenteConsistente s r cf" "j < C s" "GET_BIT (int cf) j = 1"
  shows "brilho (caixa s ! r ! j) \<noteq> -1"
    and "\<not> (GET_BIT (int cf) ((j + 1) mod C s) = 1 \<and> GET_BIT (conexoes (caixa s ! r ! j)) 0 = 1)"
  using assms by (auto simp: EhInternamenteConsistente_def list_all_iff)

lemma SaoD:
  assumes "SaoCompativeis s r a b" "j < C s" "GET_BIT (int a) j = 1" "GET_BIT (int b) j = 1"
  shows "GET_BIT (conexoes (caixa s ! r ! j)) 1 = 0"
  using assms by (auto simp: SaoCompativeis_def list_all_iff)

lemma Resolve_construida:
  assumes b: "le_cristais (nova_Cifra l c n) rs = Inr s" and l: "0 < l"
  shows "\<exists>s'. Resolve s = Inr s' \<and>
           max_valor_caixa s' = valor (f_puro s (l - 1) (nat (fst (ancora s))) (nat (fst (ancora s)))) \<and>
           num_cristais_usados s' = int (length (solucao s)) \<and>
           cristais_solucao s' = solucao s \<and>
           caixa s' = caixa s \<and> L s' = l \<and> C s' = c \<and> bem_formada s'"
    and "valor (f_puro s (l - 1) (nat (fst (ancora s))) (nat (fst (ancora s)))) \<noteq> -1"
    and "0 \<le> valor (f_puro s (l - 1) (nat (fst (ancora s))) (nat (fst (ancora s))))"
    and "solucao s = celulas_ate s (Suc (l - 1)) (nat (fst (ancora s))) (nat (fst (ancora s)))"
proof -
  note c = construida[OF b]
  note ap = ancora_props[OF c(3)]
  from Resolve_spec[OF c(2)] l c ap(3)
  show "\<exists>s'. Resolve s = Inr s' \<and>
           max_valor_caixa s' = valor (f_puro s (l - 1) (nat (fst (ancora s))) (nat (fst (ancora s)))) \<and>
           num_cristais_usados s' = int (length (solucao s)) \<and>
           cristais_solucao s' = solucao s \<and>
           caixa s' = caixa s \<and> L s' = l \<and> C s' = c \<and> bem_formada s'"
    by (auto simp: mesma_caixa_def)
  show "0 \<le> valor (f_puro s (l - 1) (nat (fst (ancora s))) (nat (fst (ancora s))))"
    using ap(3,4) c(4) by simp
  then show "valor (f_puro s (l - 1) (nat (fst (ancora s))) (nat (fst (ancora s)))) \<noteq> -1"
    by simp
  show "solucao s = celulas_ate s (Suc (l - 1)) (nat (fst (ancora s))) (nat (fst (ancora s)))"
    using l c(4) by (simp add: solucao_def)
qed

lemma sempre:
  assumes b: "le_cristais (nova_Cifra l c n) rs = Inr s"
    and p: "0 < l \<Longrightarrow> \<exists>s'. Resolve s = Inr s' \<and> P s'"
  shows "(0 < l \<longrightarrow> (\<exists>s'. Resolve s = Inr s')) \<and> (\<forall>s'. Resolve s = Inr s' \<longrightarrow> P s')"
proof (cases "l = 0")
  case True
  have "Resolve s = Inl ForaDosLimites"
    using Resolve_sem_linhas[of s] construida(3,4)[OF b] True by simp
  then show ?thesis using True by simp
next
  case False
  then obtain s' where "Resolve s = Inr s'" "P s'" using p by auto
  then show ?thesis by auto
qed

lemma total_e_contagem:
  assumes "le_cristais (nova_Cifra l c n) rs = Inr s" and "0 < l"
  shows "\<exists>s'. Resolve s = Inr s' \<and>
     snd (GetValoresSolucao s') =
       int32 (\<Sum>(x, y)\<leftarrow>GetCristaisSolucao s'. brilho (caixa s' ! nat (x - 1) ! nat (y - 1))) \<and>
     (snd (GetValoresSolucao s') =
        (\<Sum>(x, y)\<leftarrow>GetCristaisSolucao s'. brilho (caixa s' ! nat (x - 1) ! nat (y - 1))) \<longleftrightarrow>
      - 2147483648 \<le>
        (\<Sum>(x, y)\<leftarrow>GetCristaisSolucao s'. brilho (caixa s' ! nat (x - 1) ! nat (y - 1))) \<and>
      (\<Sum>(x, y)\<leftarrow>GetCristaisSolucao s'. brilho (caixa s' ! nat (x - 1) ! nat (y - 1))) <
        2147483648) \<and>
     fst (GetValoresSolucao s') = int (length (GetCristaisSolucao s'))"
proof -
  note r = Resolve_construida[OF assms]
  from r(1) obtain s' where s': "Resolve s = Inr s'"
    "max_valor_caixa s' = valor (f_puro s (l - 1) (nat (fst (ancora s))) (nat (fst (ancora s))))"
    "num_cristais_usados s' = int (length (solucao s))"
    "cristais_solucao s' = solucao s" "caixa s' = caixa s"
    by blast
  let ?t = "\<Sum>(x, y)\<leftarrow>solucao s. brilho (caixa s ! nat (x - 1) ! nat (y - 1))"
  have t: "max_valor_caixa s' = int32 ?t"
    unfolding s'(2) r(4) by (rule valor_soma_celulas[OF r(2)])
  have "int32 ?t = ?t \<longleftrightarrow> - 2147483648 \<le> ?t \<and> ?t < 2147483648"
    by (rule int32_eq_iff)
  then show ?thesis
    using s' t by (simp add: GetValoresSolucao_def GetCristaisSolucao_def)
qed

text \<open>
  Claim C1, as amended. For every box built by the constructor and any sequence of
  \<open>AdicionaCristal\<close> calls: \<open>Resolve\<close> returns when the box has at least one row, and
  whenever it returns, the reported count is the length of the list of
  \<open>GetCristaisSolucao\<close> and the total reported by \<open>GetValoresSolucao\<close> is the 32-bit sum of
  the stored brightness of the listed cells (read back at their 1-based coordinates):
  their sum wrapped into the range of an \<^verbatim>\<open>int\<close>. The total is the sum itself exactly
  when the sum lies in that range.
\<close>

theorem C1_total_e_contagem:
  assumes "le_cristais (nova_Cifra l c n) rs = Inr s"
  shows "(0 < l \<longrightarrow> (\<exists>s'. Resolve s = Inr s')) \<and>
     (\<forall>s'. Resolve s = Inr s' \<longrightarrow>
        snd (GetValoresSolucao s') =
          int32 (\<Sum>(x, y)\<leftarrow>GetCristaisSolucao s'. brilho (caixa s' ! nat (x - 1) ! nat (y - 1))) \<and>
        (snd (GetValoresSolucao s') =
           (\<Sum>(x, y)\<leftarrow>GetCristaisSolucao s'. brilho (caixa s' ! nat (x - 1) ! nat (y - 1))) \<longleftrightarrow>
         - 2147483648 \<le>
           (\<Sum>(x, y)\<leftarrow>GetCristaisSolucao s'. brilho (caixa s' ! nat (x - 1) ! nat (y - 1))) \<and>
         (\<Sum>(x, y)\<leftarrow>GetCristaisSolucao s'. brilho (caixa s' ! nat (x - 1) ! nat (y - 1))) <
           2147483648) \<and>
        fst (GetValoresSolucao s') = int (length (GetCristaisSolucao s')))"
  by (rule sempre[OF assms]) (rule total_e_contagem[OF assms])

lemma solucao_mem:
  assumes b: "le_cristais (nova_Cifra l c n) rs = Inr s" and l: "0 < l"
    and m: "(int r + 1, int j + 1) \<in> set (solucao s)"
  shows "r < l" "j < c"
    "GET_BIT (int (cadeia s (Suc (l - 1)) (nat (fst (ancora s))) (nat (fst (ancora s))) ! r)) j = 1"
proof -
  note c = construida[OF b]
  note rc = Resolve_construida[OF b l]
  from m obtain i j' where ij: "i < Suc (l - 1)" "j' < C s" "int r + 1 = int i + 1"
    "int j + 1 = int j' + 1"
    "GET_BIT (int (cadeia s (Suc (l - 1)) (nat (fst (ancora s))) (nat (fst (ancora s))) ! i)) j' = 1"
    unfolding rc(4) celulas_mem by blast
  then have "i = r" "j' = j" by simp_all
  then show "r < l" "j < c"
    "GET_BIT (int (cadeia s (Suc (l - 1)) (nat (fst (ancora s))) (nat (fst (ancora s))) ! r)) j = 1"
    using ij l c(5) by simp_all
qed

lemma restricao_horizontal:
  assumes "le_cristais (nova_Cifra l c n) rs = Inr s" and "0 < l"
  shows "\<exists>s'. Resolve s = Inr s' \<and>
     (\<forall>r j. (int r + 1, int j + 1) \<in> set (GetCristaisSolucao s') \<and>
            (int r + 1, int ((j + 1) mod c) + 1) \<in> set (GetCristaisSolucao s') \<longrightarrow>
            GET_BIT (conexoes (caixa s' ! r ! j)) 0 \<noteq> 1)"
proof -
  note c = construida[OF assms(1)]
  note rc = Resolve_construida[OF assms]
  from rc(1) obtain s' where s': "Resolve s = Inr s'"
    "cristais_solucao s' = solucao s" "caixa s' = caixa s"
    by blast
  let ?cad = "cadeia s (Suc (l - 1)) (nat (fst (ancora s))) (nat (fst (ancora s)))"
  note cp = cadeia_props[OF rc(2)]
  have "GET_BIT (conexoes (caixa s ! r ! j)) 0 \<noteq> 1"
    if m1: "(int r + 1, int j + 1) \<in> set (solucao s)"
      and m2: "(int r + 1, int ((j + 1) mod c) + 1) \<in> set (solucao s)" for r j
  proof -
    note a1 = solucao_mem[OF assms m1]
    note a2 = solucao_mem[OF assms m2]
    have e: "EhInternamenteConsistente s r (?cad ! r)" using cp a1(1) by simp
    show ?thesis using EhD(2)[OF e, of j] a1 a2(3) c(5) by auto
  qed
  then show ?thesis using s' by (auto simp: GetCristaisSolucao_def)
qed

text \<open>
  Claim C2. For every built box: \<open>Resolve\<close> returns when the box has at least one row, and
  whenever it returns, its list has no row \<open>r\<close> and column \<open>j\<close> such that the cells
  \<open>(r, j)\<close> and \<open>(r, (j + 1) mod C)\<close> are both listed while bit 0 (connected to the right)
  of the mask of cell \<open>(r, j)\<close> is set; the pair of the last column with column 0 is
  included, since \<open>j\<close> ranges over every column.
\<close>

theorem C2_restricao_horizontal:
  assumes "le_cristais (nova_Cifra l c n) rs = Inr s"
  shows "(0 < l \<longrightarrow> (\<exists>s'. Resolve s = Inr s')) \<and>
     (\<forall>s'. Resolve s = Inr s' \<longrightarrow>
        (\<forall>r j. (int r + 1, int j + 1) \<in> set (GetCristaisSolucao s') \<and>
               (int r + 1, int ((j + 1) mod c) + 1) \<in> set (GetCristaisSolucao s') \<longrightarrow>
               GET_BIT (conexoes (caixa s' ! r ! j)) 0 \<noteq> 1))"
  by (rule sempre[OF assms]) (rule restricao_horizontal[OF assms])

lemma restricao_vertical:
  assumes "le_cristais (nova_Cifra l c n) rs = Inr s" and "0 < l"
  shows "\<exists>s'. Resolve s = Inr s' \<and>
     (\<forall>r j. (int r + 1, int j + 1) \<in> set (GetCristaisSolucao s') \<and>
            (int ((r + l - 1) mod l) + 1, int j + 1) \<in> set (GetCristaisSolucao s') \<longrightarrow>
            GET_BIT (conexoes (caixa s' ! r ! j)) 1 = 0)"
proof -
  note c = construida[OF assms(1)]
  note rc = Resolve_construida[OF assms]
  from rc(1) obtain s' where s': "Resolve s = Inr s'"
    "cristais_solucao s' = solucao s" "caixa s' = caixa s"
    by blast
  let ?a = "nat (fst (ancora s))"
  let ?cad = "cadeia s (Suc (l - 1)) ?a ?a"
  note cp = cadeia_props[OF rc(2)]
  have "GET_BIT (conexoes (caixa s ! r ! j)) 1 = 0"
    if m1: "(int r + 1, int j + 1) \<in> set (solucao s)"
      and m2: "(int ((r + l - 1) mod l) + 1, int j + 1) \<in> set (solucao s)" for r j
  proof -
    note a1 = solucao_mem[OF assms m1]
    note a2 = solucao_mem[OF assms m2]
    show ?thesis
    proof (cases r)
      case 0
      have "(r + l - 1) mod l = l - 1" using 0 assms(2) by simp
      moreover have "?cad ! (l - 1) = ?a" by (rule cadeia_ultimo)
      ultimately have g: "GET_BIT (int ?a) j = 1" using a2(3) by simp
      have "SaoCompativeis s 0 (?cad ! 0) ?a" using cp by simp
      from SaoD[OF this _ _ g] a1 0 c(5) show ?thesis by simp
    next
      case (Suc r')
      have "(r + l - 1) mod l = r'" using Suc a1(1) by simp
      then have g: "GET_BIT (int (?cad ! r')) j = 1" using a2(3) by simp
      have "r' < l - 1" using Suc a1(1) by simp
      then have "SaoCompativeis s (Suc r') (?cad ! Suc r') (?cad ! r')" using cp by simp
      from SaoD[OF this _ _ g] a1 Suc c(5) show ?thesis by simp
    qed
  qed
  then show ?thesis using s' by (auto simp: GetCristaisSolucao_def)
qed

text \<open>
  Claim C3. For every built box: \<open>Resolve\<close> returns when the box has at least one row, and
  whenever it returns, its list has no row \<open>r\<close> and column \<open>j\<close> such that the cell
  \<open>(r, j)\<close> and the cell of the row above it, \<open>((r - 1 + L) mod L, j)\<close>, are both listed
  while bit 1 (connected upwards) of the mask of the lower cell \<open>(r, j)\<close> is set; for
  \<open>r = 0\<close> the row above is the last row \<open>L - 1\<close>.
\<close>

theorem C3_restricao_vertical:
  assumes "le_cristais (nova_Cifra l c n) rs = Inr s"
  shows "(0 < l \<longrightarrow> (\<exists>s'. Resolve s = Inr s')) \<and>
     (\<forall>s'. Resolve s = Inr s' \<longrightarrow>
        (\<forall>r j. (int r + 1, int j + 1) \<in> set (GetCristaisSolucao s') \<and>
               (int ((r + l - 1) mod l) + 1, int j + 1) \<in> set (GetCristaisSolucao s') \<longrightarrow>
               GET_BIT (conexoes (caixa s' ! r ! j)) 1 = 0))"
  by (rule sempre[OF assms]) (rule restricao_vertical[OF assms])

subsection \<open>Examples\<close>

lemma le_cristais_1x1: "le_cristais (nova_Cifra 1 1 1) [(1, 1, 5, 0, 0, 0, 0)] = Inr caixa_1x1"
  by code_simp

lemma le_cristais_2x2: "le_cristais (nova_Cifra 2 2 4) registros_2x2 = Inr caixa_2x2"
  by code_simp

lemma Resolve_1x1:
  "map_sum id (\<lambda>s'. (GetValoresSolucao s', GetCristaisSolucao s')) (Resolve caixa_1x1) =
     Inr ((1, 5), [(1, 1)])"
  by code_simp

lemma Resolve_2x2:
  "map_sum id (\<lambda>s'. (GetValoresSolucao s', GetCristaisSolucao s')) (Resolve caixa_2x2) =
     Inr ((3, 3), [(2, 2), (2, 1), (1, 2)])"
  by code_simp

theorem C1_witness:
  "le_cristais (nova_Cifra 1 1 1) [(1, 1, 5, 0, 0, 0, 0)] = Inr caixa_1x1 \<and>
   (\<exists>s'. Resolve caixa_1x1 = Inr s' \<and>
      GetValoresSolucao s' = (1, 5) \<and> GetCristaisSolucao s' = [(1, 1)] \<and>
      snd (GetValoresSolucao s') =
        int32 (\<Sum>(x, y)\<leftarrow>GetCristaisSolucao s'. brilho (caixa s' ! nat (x - 1) ! nat (y - 1))) \<and>
      fst (GetValoresSolucao s') = int (length (GetCristaisSolucao s')))"
proof -
  note t = C1_total_e_contagem[OF le_cristais_1x1]
  from t obtain s' where r: "Resolve caixa_1x1 = Inr s'" by auto
  with t have
    "snd (GetValoresSolucao s') =
        int32 (\<Sum>(x, y)\<leftarrow>GetCristaisSolucao s'. brilho (caixa s' ! nat (x - 1) ! nat (y - 1)))"
    "fst (GetValoresSolucao s') = int (length (GetCristaisSolucao s'))"
    by blast+
  then show ?thesis using r le_cristais_1x1 Resolve_1x1 by auto
qed

text \<open>
  A box of one row with four crystals of brightness 1500000000 and no connection: the
  program selects the four cells and prints the total 1705032704, while the sum of
  their stored brightness is 6000000000 (which is 1705032704 + 2 ^ 32).
\<close>

theorem C1_counterexample:
  "le_cristais (nova_Cifra 1 4 4) registros_grandes = Inr caixa_grande \<and>
   map_sum id
     (\<lambda>s'. (GetValoresSolucao s', GetCristaisSolucao s',
            (\<Sum>(x, y)\<leftarrow>GetCristaisSolucao s'. brilho (caixa s' ! nat (x - 1) ! nat (y - 1)))))
     (Resolve caixa_grande) =
     Inr ((4, 1705032704), [(1, 4), (1, 3), (1, 2), (1, 1)], 6000000000) \<and>
   main 1 4 registros_grandes = Inr [(4, 1705032704), (1, 4), (1, 3), (1, 2), (1, 1)]"
  by code_simp

theorem C2_witness:
  "le_cristais (nova_Cifra 2 2 4) registros_2x2 = Inr caixa_2x2 \<and>
   (\<exists>s'. Resolve caixa_2x2 = Inr s' \<and>
      (2, 1) \<in> set (GetCristaisSolucao s') \<and> (2, 2) \<in> set (GetCristaisSolucao s') \<and>
      GET_BIT (conexoes (caixa s' ! 1 ! 0)) 0 \<noteq> 1 \<and>
      GET_BIT (conexoes (caixa s' ! 0 ! 0)) 0 = 1 \<and>
      (1, 1) \<notin> set (GetCristaisSolucao s'))"
proof -
  have "(0::nat) < 2" by simp
  note t = C2_restricao_horizontal[OF le_cristais_2x2]
  from t obtain s' where r: "Resolve caixa_2x2 = Inr s'" by auto
  with t have s': "Resolve caixa_2x2 = Inr s'"
    "\<forall>r j. (int r + 1, int j + 1) \<in> set (GetCristaisSolucao s') \<and>
            (int r + 1, int ((j + 1) mod 2) + 1) \<in> set (GetCristaisSolucao s') \<longrightarrow>
            GET_BIT (conexoes (caixa s' ! r ! j)) 0 \<noteq> 1"
    by blast+
  have g: "GetCristaisSolucao s' = [(2, 2), (2, 1), (1, 2)]"
    using Resolve_2x2 s'(1) by simp
  have "GET_BIT (conexoes (caixa s' ! 1 ! 0)) 0 \<noteq> 1"
    using s'(2)[rule_format, of 1 0] g by simp
  moreover have "caixa s' = caixa caixa_2x2"
    using Resolve_construida(1)[OF le_cristais_2x2 \<open>0 < 2\<close>] s'(1) by auto
  then have "GET_BIT (conexoes (caixa s' ! 0 ! 0)) 0 = 1"
    by (simp add: caixa_2x2_def GET_BIT_def)
  ultimately show ?thesis using le_cristais_2x2 s'(1) g by auto
qed

theorem C3_witness:
  "le_cristais (nova_Cifra 2 2 4) registros_2x2 = Inr caixa_2x2 \<and>
   (\<exists>s'. Resolve caixa_2x2 = Inr s' \<and>
      (2, 2) \<in> set (GetCristaisSolucao s') \<and> (1, 2) \<in> set (GetCristaisSolucao s') \<and>
      GET_BIT (conexoes (caixa s' ! 1 ! 1)) 1 = 0 \<and>
      GET_BIT (conexoes (caixa s' ! 1 ! 0)) 1 = 1 \<and>
      (2, 1) \<in> set (GetCristaisSolucao s') \<and> (1, 1) \<notin> set (GetCristaisSolucao s'))"
proof -
  have "(0::nat) < 2" by simp
  note t = C3_restricao_vertical[OF le_cristais_2x2]
  from t obtain s' where r: "Resolve caixa_2x2 = Inr s'" by auto
  with t have s': "Resolve caixa_2x2 = Inr s'"
    "\<forall>r j. (int r + 1, int j + 1) \<in> set (GetCristaisSolucao s') \<and>
            (int ((r + 2 - 1) mod 2) + 1, int j + 1) \<in> set (GetCristaisSolucao s') \<longrightarrow>
            GET_BIT (conexoes (caixa s' ! r ! j)) 1 = 0"
    by blast+
  have g: "GetCristaisSolucao s' = [(2, 2), (2, 1), (1, 2)]"
    using Resolve_2x2 s'(1) by simp
  have "GET_BIT (conexoes (caixa s' ! 1 ! 1)) 1 = 0"
    using s'(2)[rule_format, of 1 1] g by simp
  moreover have "caixa s' = caixa caixa_2x2"
    using Resolve_construida(1)[OF le_cristais_2x2 \<open>0 < 2\<close>] s'(1) by auto
  then have "GET_BIT (conexoes (caixa s' ! 1 ! 0)) 1 = 1"
    by (simp add: caixa_2x2_def GET_BIT_def)
  ultimately show ?thesis using le_cristais_2x2 s'(1) g by auto
qed

subsection \<open>Claims C8, C4, C5 and C10\<close>

lemma linha_ordenada:
  "sorted_wrt (\<lambda>a b. fst b < fst a \<or> (fst a = fst b \<and> snd b < snd a))
     (map (\<lambda>j. (int i + 1, int j + 1)) (filter P (rev [0..<c])))"
proof -
  have "sorted_wrt (\<lambda>x y. y < x) (rev [0..<c])" by (simp add: sorted_wrt_rev)
  then have "sorted_wrt (\<lambda>x y. y < x) (filter P (rev [0..<c]))" by (rule sorted_wrt_filter)
  then have "sorted_wrt (\<lambda>x y. int y + 1 < int x + 1) (filter P (rev [0..<c]))"
    by (rule sorted_wrt_mono_rel[rotated]) simp
  then show ?thesis by (simp add: sorted_wrt_map)
qed

lemma linhas_ordenadas:
  "sorted_wrt (\<lambda>a b. fst b < fst a \<or> (fst a = fst b \<and> snd b < snd a))
     (concat (map (\<lambda>i. map (\<lambda>j. (int i + 1, int j + 1)) (filter (P i) (rev [0..<c])))
        (rev [0..<k])))"
proof (induction k)
  case 0
  then show ?case by simp
next
  case (Suc k)
  show ?case using Suc linha_ordenada[of k "P k" c]
    by (auto simp: sorted_wrt_append)
qed

lemma ordem_da_lista:
  assumes "le_cristais (nova_Cifra l c (int (length rs))) rs = Inr s" and "0 < l"
  shows "\<exists>s' confs. Resolve s = Inr s' \<and> length confs = l \<and>
     GetCristaisSolucao s' =
       concat (map (\<lambda>i. map (\<lambda>j. (int i + 1, int j + 1))
                          (filter (\<lambda>j. GET_BIT (confs ! i) j = 1) (rev [0..<c])))
                 (rev [0..<l])) \<and>
     sorted_wrt (\<lambda>a b. fst b < fst a \<or> (fst a = fst b \<and> snd b < snd a))
       (GetCristaisSolucao s') \<and>
     main l c rs = Inr (GetValoresSolucao s' # GetCristaisSolucao s')"
proof -
  note c = construida[OF assms(1)]
  note rc = Resolve_construida[OF assms]
  from rc(1) obtain s' where s': "Resolve s = Inr s'" "cristais_solucao s' = solucao s"
    by blast
  let ?cad = "cadeia s (Suc (l - 1)) (nat (fst (ancora s))) (nat (fst (ancora s)))"
  define confs where "confs = map int ?cad"
  have len: "length confs = l" using assms(2) by (simp add: confs_def)
  have mp: "map (\<lambda>i. emite (C s) i (int (?cad ! i))) (rev [0..<Suc (l - 1)]) =
            map (\<lambda>i. map (\<lambda>j. (int i + 1, int j + 1))
                          (filter (\<lambda>j. GET_BIT (confs ! i) j = 1) (rev [0..<c])))
               (rev [0..<Suc (l - 1)])"
    unfolding confs_def
    by (rule map_cong) (auto simp: emite_def c(5) simp del: cadeia.simps)
  have sol: "solucao s =
       concat (map (\<lambda>i. map (\<lambda>j. (int i + 1, int j + 1))
                          (filter (\<lambda>j. GET_BIT (confs ! i) j = 1) (rev [0..<c])))
                 (rev [0..<l]))"
    using assms(2) unfolding rc(4) celulas_ate_cadeia mp by simp
  have ord: "sorted_wrt (\<lambda>a b. fst b < fst a \<or> (fst a = fst b \<and> snd b < snd a)) (solucao s)"
    unfolding sol by (rule linhas_ordenadas)
  have "main l c rs = Inr (GetValoresSolucao s' # GetCristaisSolucao s')"
    using assms(1) s'(1) by (simp add: main_def)
  then show ?thesis using s' sol ord len
    unfolding GetCristaisSolucao_def by (intro exI[of _ s'] exI[of _ confs]) simp
qed

text \<open>
  Claim C8. For every built box: \<open>Resolve\<close> returns when the box has at least one row, and
  whenever it returns, its list, which \<open>main\<close> prints after the line of the two totals,
  is the concatenation, for the rows \<open>L - 1\<close> down to 0, of the selected columns of the
  row from \<open>C - 1\<close> down to 0, each cell written as \<open>(row + 1, column + 1)\<close>; so it is
  strictly decreasing in the row and, inside a row, in the column.
\<close>

theorem C8_ordem_da_lista:
  assumes "le_cristais (nova_Cifra l c (int (length rs))) rs = Inr s"
  shows "(0 < l \<longrightarrow> (\<exists>s'. Resolve s = Inr s')) \<and>
     (\<forall>s'. Resolve s = Inr s' \<longrightarrow>
        (\<exists>confs. length confs = l \<and>
           GetCristaisSolucao s' =
             concat (map (\<lambda>i. map (\<lambda>j. (int i + 1, int j + 1))
                                (filter (\<lambda>j. GET_BIT (confs ! i) j = 1) (rev [0..<c])))
                       (rev [0..<l]))) \<and>
        sorted_wrt (\<lambda>a b. fst b < fst a \<or> (fst a = fst b \<and> snd b < snd a))
          (GetCristaisSolucao s') \<and>
        main l c rs = Inr (GetValoresSolucao s' # GetCristaisSolucao s'))"
  using ordem_da_lista[OF assms] by (intro sempre[OF assms]) blast

lemma solucao_brilho:
  assumes b: "le_cristais (nova_Cifra l c n) rs = Inr s" and l: "0 < l"
    and m: "(x, y) \<in> set (solucao s)"
  shows "\<exists>r<l. \<exists>j<c. x = int r + 1 \<and> y = int j + 1 \<and> brilho (caixa s ! r ! j) \<noteq> -1"
proof -
  note c = construida[OF b]
  note rc = Resolve_construida[OF b l]
  let ?cad = "cadeia s (Suc (l - 1)) (nat (fst (ancora s))) (nat (fst (ancora s)))"
  from m obtain i j where ij: "i < Suc (l - 1)" "j < C s" "x = int i + 1" "y = int j + 1"
    "GET_BIT (int (?cad ! i)) j = 1"
    unfolding rc(4) celulas_mem by blast
  have "EhInternamenteConsistente s i (?cad ! i)"
    using cadeia_props[OF rc(2)] ij(1) by simp
  from EhD(1)[OF this ij(2,5)] ij l c(5) show ?thesis by auto
qed

text \<open>
  Claim C4, as amended. With no crystal placed (\<open>N = 0\<close>, every cell at its default), the program
  prints the single line \<open>0 0\<close> and no cell when the box has at least one row. When it
  has no row, the first call \<^verbatim>\<open>f(L_ - 1, 0, 0)\<close> of \<open>Resolve\<close> indexes the empty table at
  \<open>-1\<close> and nothing is printed.
\<close>

theorem C4_caixa_vazia:
  "(0 < l \<longrightarrow> main l c [] = Inr [(0, 0)]) \<and> (l = 0 \<longrightarrow> main l c [] = Inl ForaDosLimites)"
proof (intro conjI impI)
  assume l: "0 < l"
  let ?s = "nova_Cifra l c 0"
  have b: "le_cristais ?s [] = Inr ?s" by simp
  note rc = Resolve_construida[OF b l]
  have vazia: "solucao ?s = []"
  proof (rule ccontr)
    assume "solucao ?s \<noteq> []"
    then obtain x y where "(x, y) \<in> set (solucao ?s)"
      by (cases "solucao ?s") auto
    from solucao_brilho[OF b l this] obtain r j where
      "r < l" "j < c" "brilho (caixa ?s ! r ! j) \<noteq> -1" by blast
    then show False by (simp add: nova_Cifra_def Cristal_padrao_def)
  qed
  from rc(1) obtain s' where s': "Resolve ?s = Inr s'"
    "max_valor_caixa s' =
       valor (f_puro ?s (l - 1) (nat (fst (ancora ?s))) (nat (fst (ancora ?s))))"
    "num_cristais_usados s' = int (length (solucao ?s))" "cristais_solucao s' = solucao ?s"
    by blast
  have "max_valor_caixa s' = 0"
    using valor_soma_celulas[OF rc(2)] vazia s'(2) unfolding rc(4)[symmetric] by simp
  then show "main l c [] = Inr [(0, 0)]" using s' vazia
    by (simp add: main_def GetValoresSolucao_def GetCristaisSolucao_def)
next
  assume l: "l = 0"
  let ?s = "nova_Cifra l c 0"
  have b: "le_cristais ?s [] = Inr ?s" by simp
  have "Resolve ?s = Inl ForaDosLimites"
    using Resolve_sem_linhas[of ?s] construida(3,4)[OF b] l by simp
  then show "main l c [] = Inl ForaDosLimites" by (simp add: main_def)
qed

theorem C4_witness: "main 3 2 [] = Inr [(0, 0)] \<and> main 0 3 [] = Inl ForaDosLimites"
  using C4_caixa_vazia[of 3 2] C4_caixa_vazia[of 0 3] by simp

text \<open>A box without rows and without crystals, of two columns: the program prints
  nothing, as \<open>Resolve\<close> indexes the empty table.\<close>

theorem C4_counterexample:
  "main 0 2 [] = Inl ForaDosLimites \<and> main 0 2 [] \<noteq> Inr [(0, 0)]"
  by code_simp

lemma segunda_chamada:
  assumes "le_cristais (nova_Cifra l c n) rs = Inr s" and "0 < l"
  shows "\<exists>s1 s2. Resolve s = Inr s1 \<and> Resolve s1 = Inr s2 \<and>
     snd (GetValoresSolucao s2) = snd (GetValoresSolucao s1) \<and>
     fst (GetValoresSolucao s2) = 2 * fst (GetValoresSolucao s1) \<and>
     GetCristaisSolucao s2 = GetCristaisSolucao s1 @ GetCristaisSolucao s1"
proof -
  note c = construida[OF assms(1)]
  from Resolve_spec[OF c(2)] assms(2) c(4) obtain s1 where
    s1: "Resolve s = Inr s1" "max_valor_caixa s1 = valor (snd (ancora s))"
      "num_cristais_usados s1 = num_cristais_usados s + int (length (solucao s))"
      "cristais_solucao s1 = cristais_solucao s @ solucao s"
      "mesma_caixa s s1" "bem_formada s1"
    by auto
  have l1: "0 < L s1" using s1(5) assms(2) c(4) by (simp add: mesma_caixa_def)
  from Resolve_spec[OF s1(6) l1] obtain s2 where
    s2: "Resolve s1 = Inr s2" "max_valor_caixa s2 = valor (snd (ancora s1))"
      "num_cristais_usados s2 = num_cristais_usados s1 + int (length (solucao s1))"
      "cristais_solucao s2 = cristais_solucao s1 @ solucao s1"
    by auto
  show ?thesis
    using s1 s2 c(7,8) ancora_mesma[OF s1(5)] solucao_mesma[OF s1(5)]
    by (simp add: GetValoresSolucao_def GetCristaisSolucao_def)
qed

text \<open>
  Claim C5, as amended. For every built box, whenever \<open>Resolve\<close> has returned (it does
  when the box has at least one row), a second call on the same object returns too; it
  finds the memo table filled and reports the same total, but the counter is not reset
  and the list is not cleared: the reported count is twice the count of the first call
  and the list holds every cell twice. The pair \<open>(count, total)\<close> is the same only when
  no cell is selected.
\<close>

theorem C5_segunda_chamada:
  assumes "le_cristais (nova_Cifra l c n) rs = Inr s"
  shows "(0 < l \<longrightarrow> (\<exists>s1. Resolve s = Inr s1)) \<and>
     (\<forall>s1. Resolve s = Inr s1 \<longrightarrow>
        (\<exists>s2. Resolve s1 = Inr s2 \<and>
           snd (GetValoresSolucao s2) = snd (GetValoresSolucao s1) \<and>
           fst (GetValoresSolucao s2) = 2 * fst (GetValoresSolucao s1) \<and>
           GetCristaisSolucao s2 = GetCristaisSolucao s1 @ GetCristaisSolucao s1))"
  using segunda_chamada[OF assms] by (intro sempre[OF assms]) blast

theorem C5_witness:
  "le_cristais (nova_Cifra 1 1 1) [(1, 1, 5, 0, 0, 0, 0)] = Inr caixa_1x1 \<and>
   (\<exists>s1 s2. Resolve caixa_1x1 = Inr s1 \<and> Resolve s1 = Inr s2 \<and>
      GetValoresSolucao s1 = (1, 5) \<and> GetValoresSolucao s2 = (2, 5) \<and>
      GetCristaisSolucao s2 = [(1, 1), (1, 1)])"
proof -
  note t = C5_segunda_chamada[OF le_cristais_1x1]
  from t obtain s1 where r: "Resolve caixa_1x1 = Inr s1" by auto
  with t obtain s2 where
    s: "Resolve caixa_1x1 = Inr s1" "Resolve s1 = Inr s2"
     "snd (GetValoresSolucao s2) = snd (GetValoresSolucao s1)"
     "fst (GetValoresSolucao s2) = 2 * fst (GetValoresSolucao s1)"
     "GetCristaisSolucao s2 = GetCristaisSolucao s1 @ GetCristaisSolucao s1"
    by blast
  have "GetValoresSolucao s1 = (1, 5)" "GetCristaisSolucao s1 = [(1, 1)]"
    using Resolve_1x1 s(1) by simp_all
  then show ?thesis using s le_cristais_1x1
    by (intro conjI exI[of _ s1] exI[of _ s2]) (simp_all add: prod_eq_iff)
qed

theorem C5_counterexample:
  "le_cristais (nova_Cifra 1 1 1) [(1, 1, 5, 0, 0, 0, 0)] = Inr caixa_1x1 \<and>
   map_sum id GetValoresSolucao (Resolve caixa_1x1) = Inr (1, 5) \<and>
   map_sum id GetValoresSolucao
     (case Resolve caixa_1x1 of Inl err \<Rightarrow> Inl err | Inr s1 \<Rightarrow> Resolve s1) = Inr (2, 5)"
  by code_simp

text \<open>
  Claim C10. For a box with at least one row, \<open>f(L - 1, 0, 0)\<close> returns a value that is
  not negative; the first loop of \<open>Resolve\<close> ends with \<open>conf_inicial_maxima\<close> in
  \<open>[0, 2 ^ C)\<close> and a value that is not negative, which becomes \<open>max_valor_caixa\<close>; and every
  index at which the second loop reads the table is inside it and holds a computed
  answer.
\<close>

theorem C10_ancora_vencedora:
  assumes "le_cristais (nova_Cifra l c n) rs = Inr s" and "0 < l"
  shows "\<exists>r0 s0 conf_inicial_maxima maximo s1 s'.
     f s (l - 1) 0 0 = Inr (r0, s0) \<and> 0 \<le> valor r0 \<and>
     Resolve_ancora s = Inr (conf_inicial_maxima, maximo, s1) \<and>
     0 \<le> conf_inicial_maxima \<and> conf_inicial_maxima < 2 ^ c \<and> 0 \<le> valor maximo \<and>
     Resolve s = Inr s' \<and> max_valor_caixa s' = valor maximo \<and>
     list_all (\<lambda>(i, cf, ci). memo_dentro s1 i cf ci \<and> calculado (memo_em s1 i cf ci))
       (leituras s1 l (nat conf_inicial_maxima) (nat conf_inicial_maxima))"
proof -
  note c = construida[OF assms(1)]
  note ap = ancora_props[OF c(3)]
  note rc = Resolve_construida[OF assms]
  let ?a = "nat (fst (ancora s))"
  have z: "0 < num_possibilidades s" by (rule np_pos[OF c(3)])
  from f_correct[OF c(2) _ z z, of "l - 1"] assms(2) c(4) obtain s0 where
    s0: "f s (l - 1) 0 0 = Inr (f_puro s (l - 1) 0 0, s0)" by auto
  from Resolve_ancora_spec[OF c(2)] assms(2) c(4) obtain s1 where
    s1: "Resolve_ancora s = Inr (fst (ancora s), snd (ancora s), s1)"
      "bem_formada s1" "so_memo s s1"
      "\<forall>i<num_possibilidades s. calculado (memo_em s1 (l - 1) i i)"
    by auto
  from rc(1) obtain s' where s': "Resolve s = Inr s'"
    "max_valor_caixa s' = valor (f_puro s (l - 1) ?a ?a)" by blast
  have d1: "dims s1" and ok1: "memo_ok s1" using s1(2) by (simp_all add: bem_formada_def)
  have mc: "mesma_caixa s s1" by (rule so_memo_mesma_caixa[OF s1(3)])
  have f1: "L s1 = l" "num_possibilidades s1 = num_possibilidades s"
    using mc c(4) by (simp_all add: mesma_caixa_def)
  have viva: "0 < l \<longrightarrow> calculado (memo_em s1 (l - 1) ?a ?a) \<and>
                valor (f_puro s1 (l - 1) ?a ?a) \<noteq> -1"
    using s1(4) ap(2) rc(2) f_puro_mesma[OF mc, of "l - 1" ?a ?a] by simp
  have a1: "?a < num_possibilidades s1" using ap(2) f1 by simp
  have le: "l \<le> L s1" using f1 by simp
  note lv = leituras_vivas[OF d1 ok1 le a1 a1 viva]
  have "fst (ancora s) < 2 ^ c" using ap(1,2) c(6) by (simp add: nat_less_iff)
  then show ?thesis
    using s0 f_puro_zero_nonneg[OF c(3), of "l - 1" 0] s1(1) ap s' lv c(4)
    by (intro exI[of _ "f_puro s (l - 1) 0 0"] exI[of _ s0] exI[of _ "fst (ancora s)"]
          exI[of _ "snd (ancora s)"] exI[of _ s1] exI[of _ s']) simp
qed

theorem C10_witness:
  "le_cristais (nova_Cifra 2 2 4) registros_2x2 = Inr caixa_2x2 \<and>
   (\<exists>r0 s0 conf_inicial_maxima maximo s1 s'.
     f caixa_2x2 (2 - 1) 0 0 = Inr (r0, s0) \<and> 0 \<le> valor r0 \<and>
     Resolve_ancora caixa_2x2 = Inr (conf_inicial_maxima, maximo, s1) \<and>
     0 \<le> conf_inicial_maxima \<and> conf_inicial_maxima < 2 ^ 2 \<and> 0 \<le> valor maximo \<and>
     Resolve caixa_2x2 = Inr s' \<and> max_valor_caixa s' = valor maximo \<and>
     list_all (\<lambda>(i, cf, ci). memo_dentro s1 i cf ci \<and> calculado (memo_em s1 i cf ci))
       (leituras s1 2 (nat conf_inicial_maxima) (nat conf_inicial_maxima)))"
proof -
  have "(0::nat) < 2" by simp
  from C10_ancora_vencedora[OF le_cristais_2x2 this] le_cristais_2x2
  show ?thesis by simp
qed

theorem C8_witness:
  "le_cristais (nova_Cifra 2 2 (int (length registros_2x2))) registros_2x2 = Inr caixa_2x2 \<and>
   (\<exists>s' confs. Resolve caixa_2x2 = Inr s' \<and> length confs = 2 \<and>
     GetCristaisSolucao s' =
       concat (map (\<lambda>i. map (\<lambda>j. (int i + 1, int j + 1))
                          (filter (\<lambda>j. GET_BIT (confs ! i) j = 1) (rev [0..<2])))
                 (rev [0..<2])) \<and>
     sorted_wrt (\<lambda>a b. fst b < fst a \<or> (fst a = fst b \<and> snd b < snd a))
       (GetCristaisSolucao s') \<and>
     GetCristaisSolucao s' = [(2, 2), (2, 1), (1, 2)] \<and>
     main 2 2 registros_2x2 = Inr [(3, 3), (2, 2), (2, 1), (1, 2)])"
proof -
  have n: "int (length registros_2x2) = 4" by (simp add: registros_2x2_def)
  have b: "le_cristais (nova_Cifra 2 2 (int (length registros_2x2))) registros_2x2 = Inr caixa_2x2"
    unfolding n by (rule le_cristais_2x2)
  note t = C8_ordem_da_lista[OF b]
  from t obtain s' where r: "Resolve caixa_2x2 = Inr s'" by auto
  with t obtain confs where
    s: "Resolve caixa_2x2 = Inr s'" "length confs = 2"
     "GetCristaisSolucao s' =
       concat (map (\<lambda>i. map (\<lambda>j. (int i + 1, int j + 1))
                          (filter (\<lambda>j. GET_BIT (confs ! i) j = 1) (rev [0..<2])))
                 (rev [0..<2]))"
     "sorted_wrt (\<lambda>a b. fst b < fst a \<or> (fst a = fst b \<and> snd b < snd a))
       (GetCristaisSolucao s')"
     "main 2 2 registros_2x2 = Inr (GetValoresSolucao s' # GetCristaisSolucao s')"
    by blast
  have g: "GetValoresSolucao s' = (3, 3)" "GetCristaisSolucao s' = [(2, 2), (2, 1), (1, 2)]"
    using Resolve_2x2 s(1) by simp_all
  show ?thesis
    using b s(1,2,3,4) s(5)[unfolded g] g(2)
    by (intro conjI exI[of _ s'] exI[of _ confs])
qed

subsection \<open>Claim C7: the transition and its tie-break\<close>









subsection \<open>Bits of the mask\<close>

lemma GET_BIT_bit: "GET_BIT x k = (if bit x k then 1 else 0)"
  by (simp add: GET_BIT_def and_one_eq bit_iff_odd_drop_bit mod_2_eq_odd)

lemma mascara_bit0: "GET_BIT (mascara d c e b) 0 = (if d = 1 then 1 else 0)"
  by (simp add: GET_BIT_bit mascara_def SET_BIT_def CLEAR_BIT_def Let_def bit_simps)

lemma mascara_bit1: "GET_BIT (mascara d c e b) 1 = (if c = 1 then 1 else 0)"
  by (simp add: GET_BIT_bit mascara_def SET_BIT_def CLEAR_BIT_def Let_def bit_simps)

lemma mascara_bit1': "GET_BIT (mascara d c e b) (Suc 0) = (if c = 1 then 1 else 0)"
  using mascara_bit1[of d c e b] by simp

lemma mascara_zero: "mascara 0 0 0 0 = 0"
  by (simp add: mascara_def CLEAR_BIT_def)

subsection \<open>Claim C9: boxes that agree on what the predicates read\<close>

lemma irma_refl: "irma s s"
  by (simp add: irma_def mesmos_bits_def)

lemma irma_fields:
  assumes "irma s t"
  shows "L t = L s" "C t = C s" "num_possibilidades t = num_possibilidades s"
    "memo t = memo s" "num_cristais_usados t = num_cristais_usados s"
    "cristais_solucao t = cristais_solucao s" "N t = N s"
proof -
  have e: "t = s\<lparr>caixa := caixa t\<rparr>" using assms by (simp add: irma_def)
  have "L t = L (s\<lparr>caixa := caixa t\<rparr>)" "C t = C (s\<lparr>caixa := caixa t\<rparr>)"
    "num_possibilidades t = num_possibilidades (s\<lparr>caixa := caixa t\<rparr>)"
    "memo t = memo (s\<lparr>caixa := caixa t\<rparr>)"
    "num_cristais_usados t = num_cristais_usados (s\<lparr>caixa := caixa t\<rparr>)"
    "cristais_solucao t = cristais_solucao (s\<lparr>caixa := caixa t\<rparr>)"
    "N t = N (s\<lparr>caixa := caixa t\<rparr>)"
    using e by simp_all
  then show "L t = L s" "C t = C s" "num_possibilidades t = num_possibilidades s"
    "memo t = memo s" "num_cristais_usados t = num_cristais_usados s"
    "cristais_solucao t = cristais_solucao s" "N t = N s"
    by simp_all
qed

lemma irma_celula:
  assumes "irma s t" "dims s" "r < L s" "j < C s"
  shows "mesmos_bits (caixa s ! r ! j) (caixa t ! r ! j)"
  using assms unfolding irma_def dims_def by auto

lemma nth_update_rel:
  assumes "k < length xs" "length ys = length xs" "P a b" "\<forall>k<length xs. P (xs ! k) (ys ! k)"
  shows "P (xs[j := a] ! k) (ys[j := b] ! k)"
  using assms by (cases "j < length xs") (auto simp: nth_list_update)

lemma irma_poe:
  assumes "irma s t" "mesmos_bits a b"
  shows "irma (poe s i j a) (poe t i j b)"
proof -
  have e: "t = s\<lparr>caixa := caixa t\<rparr>" using assms(1) by (simp add: irma_def)
  have len: "length (caixa t) = length (caixa s)" using assms(1) by (simp add: irma_def)
  have rows: "\<And>r. r < length (caixa s) \<Longrightarrow> length (caixa t ! r) = length (caixa s ! r)"
    using assms(1) by (simp add: irma_def)
  have cel: "\<And>r k. r < length (caixa s) \<Longrightarrow> k < length (caixa s ! r) \<Longrightarrow>
      mesmos_bits (caixa s ! r ! k) (caixa t ! r ! k)"
    using assms(1) by (simp add: irma_def)
  have "poe t i j b = (poe s i j a)\<lparr>caixa := caixa (poe t i j b)\<rparr>"
    by (subst e) (simp add: poe_def)
  moreover have "length (caixa (poe t i j b)) = length (caixa (poe s i j a))"
    using len by (simp add: poe_def)
  moreover have "length (caixa (poe t i j b) ! r) = length (caixa (poe s i j a) ! r) \<and>
        (\<forall>k<length (caixa (poe s i j a) ! r).
            mesmos_bits (caixa (poe s i j a) ! r ! k) (caixa (poe t i j b) ! r ! k))"
    if "r < length (caixa (poe s i j a))" for r
  proof -
    have r: "r < length (caixa s)" using that by (simp add: poe_def)
    show ?thesis
    proof (cases "r = i")
      case True
      have l1: "length (caixa (poe t i j b) ! r) = length (caixa (poe s i j a) ! r)"
        using True r len rows[OF r] by (simp add: poe_def)
      have "mesmos_bits (caixa (poe s i j a) ! r ! k) (caixa (poe t i j b) ! r ! k)"
        if "k < length (caixa (poe s i j a) ! r)" for k
      proof -
        have k: "k < length (caixa s ! i)" using that True r by (simp add: poe_def)
        have "mesmos_bits ((caixa s ! i)[j := a] ! k) ((caixa t ! i)[j := b] ! k)"
          using k rows[OF r] cel[OF r] assms(2) True
          by (intro nth_update_rel[where P = mesmos_bits]) simp_all
        then show ?thesis using True r len by (simp add: poe_def)
      qed
      then show ?thesis using l1 by blast
    next
      case False
      then show ?thesis using r len rows[OF r] cel[OF r]
        by (simp add: poe_def)
    qed
  qed
  ultimately show ?thesis unfolding irma_def by blast
qed

lemma irma_Adiciona:
  assumes "irma s t"
  shows "(AdicionaCristal s x y v d c e b = Inl ForaDosLimites \<and>
          AdicionaCristal t x y v d c e' b' = Inl ForaDosLimites) \<or>
         (\<exists>s1 t1. AdicionaCristal s x y v d c e b = Inr s1 \<and>
            AdicionaCristal t x y v d c e' b' = Inr t1 \<and> irma s1 t1)"
proof -
  have len: "length (caixa t) = length (caixa s)" using assms by (simp add: irma_def)
  have rows: "\<And>r. r < length (caixa s) \<Longrightarrow> length (caixa t ! r) = length (caixa s ! r)"
    using assms by (simp add: irma_def)
  have mb: "mesmos_bits \<lparr>brilho = v, conexoes = mascara d c e b\<rparr>
              \<lparr>brilho = v, conexoes = mascara d c e' b'\<rparr>"
    by (simp add: mesmos_bits_def mascara_bit0 mascara_bit1')
  show ?thesis
  proof (cases "1 \<le> x \<and> nat (x - 1) < length (caixa s) \<and>
         1 \<le> y \<and> nat (y - 1) < length (caixa s ! nat (x - 1))")
    case True
    then have "1 \<le> x \<and> nat (x - 1) < length (caixa t) \<and>
         1 \<le> y \<and> nat (y - 1) < length (caixa t ! nat (x - 1))"
      using len rows by simp
    then show ?thesis using True irma_poe[OF assms mb]
      by (simp add: AdicionaCristal_eq)
  next
    case False
    have ft: "\<not> (1 \<le> x \<and> nat (x - 1) < length (caixa t) \<and>
         1 \<le> y \<and> nat (y - 1) < length (caixa t ! nat (x - 1)))"
      using False len rows by auto
    have "AdicionaCristal s x y v d c e b = Inl ForaDosLimites"
      unfolding AdicionaCristal_eq using False by (rule if_not_P)
    moreover have "AdicionaCristal t x y v d c e' b' = Inl ForaDosLimites"
      unfolding AdicionaCristal_eq using ft by (rule if_not_P)
    ultimately show ?thesis by blast
  qed
qed

lemma irma_le_cristais:
  assumes "list_all2 (\<lambda>(x, y, v, d, c, e, b) (x', y', v', d', c', e', b').
             x' = x \<and> y' = y \<and> v' = v \<and> d' = d \<and> c' = c) rs rs'"
    and "irma s t"
  shows "(le_cristais s rs = Inl ForaDosLimites \<and> le_cristais t rs' = Inl ForaDosLimites) \<or>
         (\<exists>s1 t1. le_cristais s rs = Inr s1 \<and> le_cristais t rs' = Inr t1 \<and> irma s1 t1)"
  using assms
proof (induction rs rs' arbitrary: s t rule: list_all2_induct)
  case Nil
  then show ?case by simp
next
  case (Cons r rs r' rs')
  obtain x y v d c e b where r: "r = (x, y, v, d, c, e, b)" by (cases r)
  obtain x' y' v' d' c' e' b' where r': "r' = (x', y', v', d', c', e', b')" by (cases r')
  have eq: "x' = x" "y' = y" "v' = v" "d' = d" "c' = c" using Cons.hyps(1) r r' by simp_all
  from irma_Adiciona[OF Cons.prems, of x y v d c e b e' b']
  show ?case
  proof
    assume "AdicionaCristal s x y v d c e b = Inl ForaDosLimites \<and>
          AdicionaCristal t x y v d c e' b' = Inl ForaDosLimites"
    then show ?thesis by (simp add: r r' eq)
  next
    assume "\<exists>s1 t1. AdicionaCristal s x y v d c e b = Inr s1 \<and>
            AdicionaCristal t x y v d c e' b' = Inr t1 \<and> irma s1 t1"
    then obtain s1 t1 where a: "AdicionaCristal s x y v d c e b = Inr s1"
      "AdicionaCristal t x y v d c e' b' = Inr t1" "irma s1 t1" by blast
    from Cons.IH[OF a(3)] show ?thesis using a by (simp add: r r' eq)
  qed
qed

lemma passo_cong:
  "(\<And>p. SaoCompativeis t l cf p = SaoCompativeis s l cf p) \<Longrightarrow>
   passo t l cf vl ac = passo s l cf vl ac"
  by (simp add: fun_eq_iff passo_def)

lemma f_puro_cong:
  assumes np: "num_possibilidades t = num_possibilidades s"
    and e: "\<And>r cf. r \<le> l \<Longrightarrow> EhInternamenteConsistente t r cf = EhInternamenteConsistente s r cf"
    and c: "\<And>r a b. r \<le> l \<Longrightarrow> SaoCompativeis t r a b = SaoCompativeis s r a b"
    and v: "\<And>r cf. r \<le> l \<Longrightarrow> soma_linha t r cf = soma_linha s r cf"
  shows "f_puro t l cf ci = f_puro s l cf ci"
  using e c v
proof (induction l arbitrary: cf)
  case 0
  then show ?case by (simp add: f_puro.simps)
next
  case (Suc l)
  have "\<And>p. f_puro t l p ci = f_puro s l p ci"
    by (rule Suc.IH) (simp_all add: Suc.prems)
  then have ac: "(\<lambda>p. f_puro t l p ci) = (\<lambda>p. f_puro s l p ci)" by simp
  have pc: "passo t (Suc l) cf (soma_linha s (Suc l) cf) (\<lambda>p. f_puro s l p ci) =
            passo s (Suc l) cf (soma_linha s (Suc l) cf) (\<lambda>p. f_puro s l p ci)"
    by (rule passo_cong) (simp add: Suc.prems)
  show ?case
    unfolding f_puro.simps Suc.prems(1)[OF order_refl] Suc.prems(3)[OF order_refl] ac np pc ..
qed

lemma ancora_cong:
  assumes "num_possibilidades t = num_possibilidades s" "L t = L s"
    and "\<And>i. f_puro t (L s - 1) i i = f_puro s (L s - 1) i i"
  shows "ancora t = ancora s"
proof -
  have "ancora_passo t = ancora_passo s"
    using assms(2,3) by (simp add: fun_eq_iff ancora_passo_def)
  then show ?thesis using assms(1) by (simp add: ancora_def)
qed

lemma celulas_cong:
  assumes "C t = C s"
    and "\<And>k' cf. k' < k \<Longrightarrow> f_puro t k' cf ci = f_puro s k' cf ci"
  shows "celulas_ate t k cf ci = celulas_ate s k cf ci"
  using assms(2)
proof (induction k arbitrary: cf)
  case 0
  then show ?case by simp
next
  case (Suc k)
  have "celulas_ate t k (conf (f_puro s k cf ci)) ci = celulas_ate s k (conf (f_puro s k cf ci)) ci"
    by (rule Suc.IH) (simp add: Suc.prems)
  then show ?case using Suc.prems[of k cf] assms(1) by simp
qed

lemma irma_predicados:
  assumes i: "irma s t" and d: "dims s" and r: "r < L s"
  shows "EhInternamenteConsistente t r cf = EhInternamenteConsistente s r cf"
    "SaoCompativeis t r a b = SaoCompativeis s r a b"
    "soma_linha t r cf = soma_linha s r cf"
proof -
  note f = irma_fields[OF i]
  have cel: "brilho (caixa t ! r ! j) = brilho (caixa s ! r ! j) \<and>
     GET_BIT (conexoes (caixa t ! r ! j)) 0 = GET_BIT (conexoes (caixa s ! r ! j)) 0 \<and>
     GET_BIT (conexoes (caixa t ! r ! j)) 1 = GET_BIT (conexoes (caixa s ! r ! j)) 1"
    if "j < C s" for j
    using irma_celula[OF i d r that] by (simp add: mesmos_bits_def)
  show "EhInternamenteConsistente t r cf = EhInternamenteConsistente s r cf"
    unfolding EhInternamenteConsistente_def list_all_iff f(2) using cel by auto
  show "SaoCompativeis t r a b = SaoCompativeis s r a b"
    unfolding SaoCompativeis_def list_all_iff f(2) using cel by auto
  have "map (\<lambda>j. if GET_BIT (int cf) j = 1 then brilho (caixa t ! r ! j) else 0) [0..<C s] =
        map (\<lambda>j. if GET_BIT (int cf) j = 1 then brilho (caixa s ! r ! j) else 0) [0..<C s]"
    by (rule map_cong) (simp_all add: cel)
  then show "soma_linha t r cf = soma_linha s r cf"
    unfolding soma_linha_sum f(2) by (rule arg_cong)
qed

lemma irma_puro:
  assumes i: "irma s t" and d: "dims s" and l: "0 < L s"
  shows "ancora t = ancora s" "solucao t = solucao s"
    "k < L s \<Longrightarrow> f_puro t k cf ci = f_puro s k cf ci"
proof -
  note f = irma_fields[OF i]
  have fp: "f_puro t k cf ci = f_puro s k cf ci" if "k < L s" for k cf ci
    using that by (intro f_puro_cong f(3) irma_predicados[OF i d]) simp_all
  show "k < L s \<Longrightarrow> f_puro t k cf ci = f_puro s k cf ci" by (rule fp)
  show a: "ancora t = ancora s"
    using l by (intro ancora_cong f fp) simp
  have "celulas_ate t (L s) ci ci = celulas_ate s (L s) ci ci" for ci
    by (intro celulas_cong f fp)
  then show "solucao t = solucao s" by (simp add: solucao_def a f)
qed

text \<open>
  Claim C9. Two inputs whose records agree in \<open>x\<close>, \<open>y\<close>, \<open>v\<close>, \<open>d\<close> and \<open>c\<close>, and differ at
  most in the flags \<open>e\<close> (left) and \<open>b\<close> (down), give the same output of \<open>main\<close>: the same
  line of totals and the same list of cells, or the same error.
\<close>

theorem C9_independe_de_e_b:
  assumes "list_all2 (\<lambda>(x, y, v, d, c, e, b) (x', y', v', d', c', e', b').
             x' = x \<and> y' = y \<and> v' = v \<and> d' = d \<and> c' = c) rs rs'"
  shows "main l c rs' = main l c rs"
proof -
  have n: "length rs' = length rs" using assms by (simp add: list_all2_lengthD)
  let ?s0 = "nova_Cifra l c (int (length rs))"
  from irma_le_cristais[OF assms irma_refl, of ?s0]
  show ?thesis
  proof
    assume "le_cristais ?s0 rs = Inl ForaDosLimites \<and> le_cristais ?s0 rs' = Inl ForaDosLimites"
    then show ?thesis by (simp add: main_def n)
  next
    assume "\<exists>s1 t1. le_cristais ?s0 rs = Inr s1 \<and> le_cristais ?s0 rs' = Inr t1 \<and> irma s1 t1"
    then obtain s1 t1 where b: "le_cristais ?s0 rs = Inr s1" "le_cristais ?s0 rs' = Inr t1"
      and i: "irma s1 t1" by blast
    note cs = construida[OF b(1)]
    note ct = construida[OF b(2)]
    show ?thesis
    proof (cases "l = 0")
      case True
      have "Resolve s1 = Inl ForaDosLimites" "Resolve t1 = Inl ForaDosLimites"
        using Resolve_sem_linhas cs(3,4) ct(3,4) True by simp_all
      then show ?thesis using b by (simp add: main_def n)
    next
      case False
      then have l: "0 < l" by simp
      note rs1 = Resolve_construida[OF b(1) l]
      note rt1 = Resolve_construida[OF b(2) l]
      have ls: "0 < L s1" using l cs(4) by simp
      note ip = irma_puro[OF i cs(3) ls]
      have fp: "f_puro t1 (l - 1) (nat (fst (ancora s1))) (nat (fst (ancora s1))) =
                f_puro s1 (l - 1) (nat (fst (ancora s1))) (nat (fst (ancora s1)))"
        using ip(3)[of "l - 1"] l cs(4) by simp
      from rs1(1) obtain s' where s': "Resolve s1 = Inr s'"
        "max_valor_caixa s' =
           valor (f_puro s1 (l - 1) (nat (fst (ancora s1))) (nat (fst (ancora s1))))"
        "num_cristais_usados s' = int (length (solucao s1))" "cristais_solucao s' = solucao s1"
        by blast
      from rt1(1) obtain t' where t': "Resolve t1 = Inr t'"
        "max_valor_caixa t' =
           valor (f_puro t1 (l - 1) (nat (fst (ancora t1))) (nat (fst (ancora t1))))"
        "num_cristais_usados t' = int (length (solucao t1))" "cristais_solucao t' = solucao t1"
        by blast
      show ?thesis
        using b s' t' ip(1,2) fp
        by (simp add: main_def n GetValoresSolucao_def GetCristaisSolucao_def)
    qed
  qed
qed

subsection \<open>Claim C6: adding a crystal of value 0\<close>

lemma unset_bit_nat_le: "unset_bit k (p::nat) \<le> p"
proof -
  have "int (unset_bit k p) \<le> int p"
    by (simp add: of_nat_unset_bit_eq unset_bit_less_eq)
  then show ?thesis by simp
qed

lemma unset_bit_nat_less: "bit p k \<Longrightarrow> unset_bit k (p::nat) < p"
proof -
  assume b: "bit p k"
  have "\<not> bit (unset_bit k p) k" by (simp add: bit_unset_bit_iff)
  then have "unset_bit k p \<noteq> p" using b by auto
  then show ?thesis using unset_bit_nat_le[of k p] by simp
qed

lemma GET_BIT_limpa:
  "GET_BIT (int (unset_bit k p)) j = (if j = k then 0 else GET_BIT (int p) j)"
  by (simp add: GET_BIT_bit bit_of_nat_iff_bit bit_unset_bit_iff)

lemma Eh_limpa:
  "EhInternamenteConsistente s r cf \<Longrightarrow> EhInternamenteConsistente s r (unset_bit k cf)"
  unfolding EhInternamenteConsistente_def list_all_iff
  by (auto simp: GET_BIT_limpa split: if_splits)

lemma Sao_limpa:
  "SaoCompativeis s r a b \<Longrightarrow> SaoCompativeis s r a (unset_bit k b)"
  unfolding SaoCompativeis_def list_all_iff
  by (auto simp: GET_BIT_limpa split: if_splits)

lemma f_puro_vivo_Eh:
  "valor (f_puro s l cf ci) \<noteq> -1 \<Longrightarrow> EhInternamenteConsistente s l cf"
  by (cases l) (auto simp: f_puro.simps split: if_splits)

text \<open>The loop of \<open>f\<close> gives the same answer from two families of answers of the row
  above when every answer that differs is dead in the second family and, in the
  first, is dead too or repeats the value of an earlier candidate that is compatible
  whenever it is: such a candidate never replaces the maximum.\<close>

lemma fold_passo_dominado:
  assumes "\<And>p. p < n \<Longrightarrow> act p = acs p \<or>
        (valor (acs p) = -1 \<and> (valor (act p) = -1 \<or>
           (\<exists>q<p. valor (acs q) = valor (act p) \<and>
              (SaoCompativeis s l cf p \<longrightarrow> SaoCompativeis s l cf q))))"
  shows "fold (passo s l cf vl act) [0..<n] m = fold (passo s l cf vl acs) [0..<n] m"
  using assms
proof (induction n)
  case 0
  show ?case by simp
next
  case (Suc n)
  let ?m = "fold (passo s l cf vl acs) [0..<n] m"
  have ih: "fold (passo s l cf vl act) [0..<n] m = ?m"
    by (rule Suc.IH) (rule Suc.prems, simp)
  have "act n = acs n \<or>
        (valor (acs n) = -1 \<and> (valor (act n) = -1 \<or>
           (\<exists>q<n. valor (acs q) = valor (act n) \<and>
              (SaoCompativeis s l cf n \<longrightarrow> SaoCompativeis s l cf q))))"
    by (rule Suc.prems) simp
  then consider (a) "act n = acs n" | (b) "valor (acs n) = -1" "valor (act n) = -1"
    | (c) q where "valor (acs n) = -1" "valor (act n) \<noteq> -1" "q < n"
        "valor (acs q) = valor (act n)" "SaoCompativeis s l cf n \<longrightarrow> SaoCompativeis s l cf q"
    by blast
  then have "passo s l cf vl act n ?m = passo s l cf vl acs n ?m"
  proof cases
    case a
    then show ?thesis by (simp add: passo_def)
  next
    case b
    then show ?thesis by (simp add: passo_def)
  next
    case c
    show ?thesis
    proof (cases "SaoCompativeis s l cf n")
      case False
      then show ?thesis by (simp add: passo_def)
    next
      case True
      then have sq: "SaoCompativeis s l cf q" using c(5) by simp
      have q: "q \<in> set [0..<n]" using c(3) by simp
      have vq: "valor (acs q) \<noteq> -1" using c(2,4) by simp
      have "int32 (valor (acs q) + vl) \<le> valor ?m"
        by (rule fold_passo_max[where ac = acs, OF q sq vq])
      then show ?thesis using c by (simp add: passo_def)
    qed
  qed
  then show ?case using ih by simp
qed

lemma poe_predicados:
  assumes d: "dims s" and xy: "x0 < L s" "y0 < C s" and r: "r < L s"
    and outra: "\<not> (r = x0 \<and> GET_BIT (int cf) y0 = 1)"
  shows "EhInternamenteConsistente (poe s x0 y0 cr) r cf = EhInternamenteConsistente s r cf"
    "SaoCompativeis (poe s x0 y0 cr) r cf b = SaoCompativeis s r cf b"
    "soma_linha (poe s x0 y0 cr) r cf = soma_linha s r cf"
proof -
  let ?t = "poe s x0 y0 cr"
  have lx: "x0 < length (caixa s)" "y0 < length (caixa s ! x0)"
    using d xy by (simp_all add: dims_def)
  have cel: "caixa ?t ! r ! j = caixa s ! r ! j" if "GET_BIT (int cf) j = 1" for j
    using caixa_poe[OF lx, of cr r j] outra that by auto
  show "EhInternamenteConsistente ?t r cf = EhInternamenteConsistente s r cf"
    unfolding EhInternamenteConsistente_def list_all_iff using cel by auto
  show "SaoCompativeis ?t r cf b = SaoCompativeis s r cf b"
    unfolding SaoCompativeis_def list_all_iff using cel by auto
  have "map (\<lambda>j. if GET_BIT (int cf) j = 1 then brilho (caixa ?t ! r ! j) else 0) [0..<C s] =
        map (\<lambda>j. if GET_BIT (int cf) j = 1 then brilho (caixa s ! r ! j) else 0) [0..<C s]"
    by (rule map_cong) (simp_all add: cel)
  then show "soma_linha ?t r cf = soma_linha s r cf"
    unfolding soma_linha_sum poe_fields by (rule arg_cong)
qed

text \<open>In a box whose cell \<open>(x0, y0)\<close> has brightness 0 and no connection, a consistent
  configuration of row \<open>x0\<close> that selects the cell has the answer of the configuration
  without it.\<close>

lemma f_puro_limpa:
  assumes y: "y0 < C t" and cel: "caixa t ! x0 ! y0 = \<lparr>brilho = 0, conexoes = 0\<rparr>"
    and e: "EhInternamenteConsistente t x0 p"
  shows "f_puro t x0 p ci = f_puro t x0 (unset_bit y0 p) ci"
proof -
  let ?q = "unset_bit y0 p"
  have eq: "EhInternamenteConsistente t x0 ?q" by (rule Eh_limpa[OF e])
  have sao: "SaoCompativeis t x0 p b = SaoCompativeis t x0 ?q b" for b
    unfolding SaoCompativeis_def list_all_iff
    using cel by (auto simp: GET_BIT_limpa)
  have "map (\<lambda>j. if GET_BIT (int p) j = 1 then brilho (caixa t ! x0 ! j) else 0) [0..<C t] =
        map (\<lambda>j. if GET_BIT (int ?q) j = 1 then brilho (caixa t ! x0 ! j) else 0) [0..<C t]"
    by (rule map_cong) (simp_all add: GET_BIT_limpa cel)
  then have soma: "soma_linha t x0 p = soma_linha t x0 ?q"
    unfolding soma_linha_sum by (rule arg_cong)
  show ?thesis
  proof (cases x0)
    case 0
    then show ?thesis using e eq sao soma by (simp add: f_puro.simps)
  next
    case (Suc k)
    have "passo t (Suc k) p vl ac = passo t (Suc k) ?q vl ac" for vl ac
      using sao unfolding Suc by (simp add: fun_eq_iff passo_def)
    then show ?thesis using e eq soma unfolding Suc by (simp add: f_puro.simps)
  qed
qed

text \<open>Storing a crystal of brightness 0 without connections at an empty position leaves
  the answer of every state whose configuration does not select the new cell as it is.\<close>

lemma f_puro_poe:
  assumes d: "dims s" and xy: "x0 < L s" "y0 < C s"
    and vazio: "brilho (caixa s ! x0 ! y0) = -1"
    and l: "l < L s" and outra: "\<not> (l = x0 \<and> GET_BIT (int cf) y0 = 1)"
  shows "f_puro (poe s x0 y0 \<lparr>brilho = 0, conexoes = 0\<rparr>) l cf ci = f_puro s l cf ci"
  using l outra
proof (induction l arbitrary: cf)
  case 0
  note pr = poe_predicados[OF d xy "0.prems", of "\<lparr>brilho = 0, conexoes = 0\<rparr>"]
  show ?case by (simp add: f_puro.simps pr)
next
  case (Suc l)
  let ?t = "poe s x0 y0 \<lparr>brilho = 0, conexoes = 0\<rparr>"
  note pr = poe_predicados[OF d xy Suc.prems, of "\<lparr>brilho = 0, conexoes = 0\<rparr>"]
  have lx: "x0 < length (caixa s)" "y0 < length (caixa s ! x0)"
    using d xy by (simp_all add: dims_def)
  have cel: "caixa ?t ! x0 ! y0 = \<lparr>brilho = 0, conexoes = 0\<rparr>"
    using caixa_poe[OF lx, of "\<lparr>brilho = 0, conexoes = 0\<rparr>" x0 y0] by simp
  have ll: "l < L s" using Suc.prems(1) by simp
  show ?case
  proof (cases "EhInternamenteConsistente s (Suc l) cf")
    case False
    then show ?thesis by (simp add: f_puro.simps pr)
  next
    case True
    let ?vl = "soma_linha s (Suc l) cf"
    let ?act = "\<lambda>p. f_puro ?t l p ci" and ?acs = "\<lambda>p. f_puro s l p ci"
    have ps: "passo ?t (Suc l) cf ?vl ?act = passo s (Suc l) cf ?vl ?act"
      by (rule passo_cong) (rule pr(2))
    have dom: "?act p = ?acs p \<or>
        (valor (?acs p) = -1 \<and> (valor (?act p) = -1 \<or>
           (\<exists>q<p. valor (?acs q) = valor (?act p) \<and>
              (SaoCompativeis s (Suc l) cf p \<longrightarrow> SaoCompativeis s (Suc l) cf q))))" for p
    proof (cases "l = x0 \<and> GET_BIT (int p) y0 = 1")
      case False
      then show ?thesis using Suc.IH[OF ll, of p] by simp
    next
      case nova: True
      have "\<not> EhInternamenteConsistente s l p"
        using EhD(1)[of s l p y0] xy(2) nova vazio by auto
      then have ms: "valor (?acs p) = -1" using f_puro_vivo_Eh[of s l p ci] by auto
      show ?thesis
      proof (cases "EhInternamenteConsistente ?t l p")
        case False
        then have "valor (?act p) = -1" using f_puro_vivo_Eh[of ?t l p ci] by auto
        then show ?thesis using ms by simp
      next
        case et: True
        let ?q = "unset_bit y0 p"
        have bp: "bit p y0" using nova by (simp add: GET_BIT_bit bit_of_nat_iff_bit split: if_splits)
        have qp: "?q < p" by (rule unset_bit_nat_less[OF bp])
        have "?act p = f_puro ?t l ?q ci"
          using f_puro_limpa[of y0 ?t x0 p ci] xy(2) cel et nova by simp
        also have "\<dots> = ?acs ?q"
          by (rule Suc.IH[OF ll]) (simp add: GET_BIT_limpa)
        finally have "valor (?acs ?q) = valor (?act p)" by simp
        moreover have "SaoCompativeis s (Suc l) cf p \<longrightarrow> SaoCompativeis s (Suc l) cf ?q"
          using Sao_limpa by blast
        ultimately show ?thesis using ms qp by blast
      qed
    qed
    have "f_puro ?t (Suc l) cf ci =
            fold (passo ?t (Suc l) cf ?vl ?act) [0..<num_possibilidades s] morta"
      using True by (simp add: f_puro.simps pr)
    also have "\<dots> = fold (passo s (Suc l) cf ?vl ?acs) [0..<num_possibilidades s] morta"
      unfolding ps by (rule fold_passo_dominado) (rule dom)
    also have "\<dots> = f_puro s (Suc l) cf ci"
      using True by (simp add: f_puro.simps)
    finally show ?thesis .
  qed
qed

text \<open>
  Claim C6. Let \<open>(x, y)\<close> be a position of a built box whose stored brightness is \<open>-1\<close>.
  Adding there a crystal of value 0 with the four flags 0 does not decrease the total
  reported after \<open>Resolve\<close>; and for every row configuration that does not select the
  new cell, both predicates (internal consistency of the row, compatibility with any
  configuration of the row above) give the same answer before and after.
\<close>

theorem C6_monotonia:
  assumes "le_cristais (nova_Cifra l c n) rs = Inr s"
    and "brilho (caixa s ! nat (x - 1) ! nat (y - 1)) = -1"
    and "AdicionaCristal s x y 0 0 0 0 0 = Inr t"
  shows "\<exists>s' t'. Resolve s = Inr s' \<and> Resolve t = Inr t' \<and>
     snd (GetValoresSolucao s') \<le> snd (GetValoresSolucao t') \<and>
     (\<forall>r cf cf2. r < l \<and> \<not> (r = nat (x - 1) \<and> GET_BIT (int cf) (nat (y - 1)) = 1) \<longrightarrow>
        EhInternamenteConsistente t r cf = EhInternamenteConsistente s r cf \<and>
        SaoCompativeis t r cf cf2 = SaoCompativeis s r cf cf2)"
proof -
  note c = construida[OF assms(1)]
  let ?x = "nat (x - 1)" and ?y = "nat (y - 1)"
  let ?cr = "\<lparr>brilho = 0, conexoes = mascara 0 0 0 0\<rparr>"
  have tt: "t = poe s ?x ?y ?cr" and xl: "?x < length (caixa s)"
    and yl: "?y < length (caixa s ! ?x)"
    using assms(3) by (auto simp: AdicionaCristal_eq split: if_splits)
  have xy: "?x < L s" "?y < C s" using xl yl c(3) by (auto simp: dims_def)
  have l0: "0 < l" using xy(1) c(4) by simp
  have bt: "le_cristais (nova_Cifra l c n) (rs @ [(x, y, 0, 0, 0, 0, 0)]) = Inr t"
  proof -
    have "le_cristais s0 (rs @ [(x, y, 0, 0, 0, 0, 0)]) = Inr t"
      if "le_cristais s0 rs = Inr s" for s0
      using that
    proof (induction rs arbitrary: s0)
      case Nil
      then show ?case using assms(3) by simp
    next
      case (Cons r rs)
      obtain x' y' v' d' c' e' b' where r: "r = (x', y', v', d', c', e', b')" by (cases r)
      show ?case using Cons unfolding r by (auto split: sum.splits)
    qed
    then show ?thesis using assms(1) by simp
  qed
  note ct = construida[OF bt]
  note rs' = Resolve_construida[OF assms(1) l0]
  note rt' = Resolve_construida[OF bt l0]
  let ?a = "nat (fst (ancora s))"
  have pp: "EhInternamenteConsistente t r cf = EhInternamenteConsistente s r cf \<and>
        soma_linha t r cf = soma_linha s r cf \<and>
        (\<forall>b. SaoCompativeis t r cf b = SaoCompativeis s r cf b)"
    if "r < l" "\<not> (r = ?x \<and> GET_BIT (int cf) ?y = 1)" for r cf
    using poe_predicados[OF c(3) xy _ that(2), of ?cr] that(1) c(4) unfolding tt by simp
  have A: "EhInternamenteConsistente t r cf \<and> soma_linha t r cf = soma_linha s r cf \<and>
              (\<forall>b. SaoCompativeis t r cf b = SaoCompativeis s r cf b)"
    if "r \<le> l - 1" "EhInternamenteConsistente s r cf" for r cf
  proof -
    have r: "r < l" using that(1) l0 by simp
    have "\<not> (r = ?x \<and> GET_BIT (int cf) ?y = 1)"
      using EhD(1)[OF that(2) xy(2)] assms(2) by auto
    from pp[OF r this] that(2) show ?thesis by simp
  qed
  have np: "num_possibilidades t = num_possibilidades s" using c(6) ct(6) by simp
  have "\<not> (l - 1 = ?x \<and> GET_BIT (int ?a) ?y = 1)"
    using EhD(1)[OF f_puro_vivo_Eh[OF rs'(2)] xy(2)] assms(2) by auto
  from f_puro_poe[OF c(3) xy assms(2) _ this, of ?a] l0 c(4)
  have m1: "valor (f_puro s (l - 1) ?a ?a) \<le> valor (f_puro t (l - 1) ?a ?a)"
    unfolding tt by (simp add: mascara_zero)
  have "?a \<in> set [0..<num_possibilidades t]"
    using ancora_props(2)[OF c(3)] np by simp
  from fold_ancora_max[OF this, of t "-1" morta]
  have m2: "valor (f_puro t (l - 1) ?a ?a) \<le> valor (snd (ancora t))"
    using ct(4) by (simp add: ancora_def)
  have m3: "valor (snd (ancora t)) =
      valor (f_puro t (l - 1) (nat (fst (ancora t))) (nat (fst (ancora t))))"
    using ancora_props(3)[OF ct(3)] ct(4) by simp
  from rs'(1) obtain s' where s': "Resolve s = Inr s'"
    "max_valor_caixa s' = valor (f_puro s (l - 1) ?a ?a)" by blast
  from rt'(1) obtain t' where t': "Resolve t = Inr t'"
    "max_valor_caixa t' =
       valor (f_puro t (l - 1) (nat (fst (ancora t))) (nat (fst (ancora t))))" by blast
  have "snd (GetValoresSolucao s') \<le> snd (GetValoresSolucao t')"
    using s'(2) t'(2) m1 m2 m3 by (simp add: GetValoresSolucao_def)
  then show ?thesis using s'(1) t'(1) pp by blast
qed

subsection \<open>More examples\<close>

lemma le_cristais_empate: "le_cristais (nova_Cifra 2 2 3) registros_empate = Inr caixa_empate"
  by code_simp



lemma Adiciona_empate: "AdicionaCristal caixa_empate 2 2 0 0 0 0 0 = Inr caixa_empate_mais"
  by code_simp

lemma Resolve_empate:
  "map_sum id GetValoresSolucao (Resolve caixa_empate) = Inr (2, 4)"
  "map_sum id GetValoresSolucao (Resolve caixa_empate_mais) = Inr (2, 4)"
  by code_simp+

lemma main_2x2: "main 2 2 registros_2x2 = Inr [(3, 3), (2, 2), (2, 1), (1, 2)]"
  by code_simp

text \<open>Two crystals of brightness 2147483647 in the second row of a 2 by 2 box: the 32-bit
  sum of the row is -2, so the configuration that selects both has a dead answer and the
  program selects one crystal.\<close>

lemma main_limite:
  "main 2 2 [(2, 1, 2147483647, 0, 0, 0, 0), (2, 2, 2147483647, 0, 0, 0, 0)] =
     Inr [(1, 2147483647), (2, 1)]"
  by code_simp



theorem C6_witness:
  "le_cristais (nova_Cifra 2 2 3) registros_empate = Inr caixa_empate \<and>
   brilho (caixa caixa_empate ! nat (2 - 1) ! nat (2 - 1)) = -1 \<and>
   AdicionaCristal caixa_empate 2 2 0 0 0 0 0 = Inr caixa_empate_mais \<and>
   (\<exists>s' t'. Resolve caixa_empate = Inr s' \<and> Resolve caixa_empate_mais = Inr t' \<and>
      snd (GetValoresSolucao s') \<le> snd (GetValoresSolucao t') \<and>
      GetValoresSolucao s' = (2, 4) \<and> GetValoresSolucao t' = (2, 4) \<and>
      EhInternamenteConsistente caixa_empate_mais 1 1 = EhInternamenteConsistente caixa_empate 1 1 \<and>
      SaoCompativeis caixa_empate_mais 1 1 3 = SaoCompativeis caixa_empate 1 1 3)"
proof -
  have b: "brilho (caixa caixa_empate ! nat (2 - 1) ! nat (2 - 1)) = -1"
    by (simp add: caixa_empate_def Cristal_padrao_def)
  from C6_monotonia[OF le_cristais_empate b Adiciona_empate] obtain s' t' where
    r: "Resolve caixa_empate = Inr s'" "Resolve caixa_empate_mais = Inr t'"
      "snd (GetValoresSolucao s') \<le> snd (GetValoresSolucao t')"
    and p: "\<forall>r cf cf2. r < 2 \<and> \<not> (r = nat (2 - 1) \<and> GET_BIT (int cf) (nat (2 - 1)) = 1) \<longrightarrow>
        EhInternamenteConsistente caixa_empate_mais r cf = EhInternamenteConsistente caixa_empate r cf \<and>
        SaoCompativeis caixa_empate_mais r cf cf2 = SaoCompativeis caixa_empate r cf cf2"
    by blast
  have g: "GET_BIT (int 1) (nat (2 - 1)) \<noteq> 1" by (simp add: GET_BIT_def)
  have q: "EhInternamenteConsistente caixa_empate_mais 1 1 = EhInternamenteConsistente caixa_empate 1 1"
    "SaoCompativeis caixa_empate_mais 1 1 3 = SaoCompativeis caixa_empate 1 1 3"
    using p[rule_format, of 1 1 3] g by simp_all
  have gv: "GetValoresSolucao s' = (2, 4)" "GetValoresSolucao t' = (2, 4)"
    using Resolve_empate r by simp_all
  have "\<exists>s' t'. Resolve caixa_empate = Inr s' \<and> Resolve caixa_empate_mais = Inr t' \<and>
      snd (GetValoresSolucao s') \<le> snd (GetValoresSolucao t') \<and>
      GetValoresSolucao s' = (2, 4) \<and> GetValoresSolucao t' = (2, 4) \<and>
      EhInternamenteConsistente caixa_empate_mais 1 1 = EhInternamenteConsistente caixa_empate 1 1 \<and>
      SaoCompativeis caixa_empate_mais 1 1 3 = SaoCompativeis caixa_empate 1 1 3"
  proof (intro exI conjI)
    show "Resolve caixa_empate = Inr s'" by (rule r(1))
    show "Resolve caixa_empate_mais = Inr t'" by (rule r(2))
    show "snd (GetValoresSolucao s') \<le> snd (GetValoresSolucao t')" by (rule r(3))
    show "GetValoresSolucao s' = (2, 4)" by (rule gv(1))
    show "GetValoresSolucao t' = (2, 4)" by (rule gv(2))
    show "EhInternamenteConsistente caixa_empate_mais 1 1 = EhInternamenteConsistente caixa_empate 1 1"
      by (rule q(1))
    show "SaoCompativeis caixa_empate_mais 1 1 3 = SaoCompativeis caixa_empate 1 1 3"
      by (rule q(2))
  qed
  then show ?thesis
    using le_cristais_empate b Adiciona_empate by (intro conjI)
qed

theorem C9_witness:
  "list_all2 (\<lambda>(x, y, v, d, c, e, b) (x', y', v', d', c', e', b').
             x' = x \<and> y' = y \<and> v' = v \<and> d' = d \<and> c' = c) registros_2x2 registros_2x2_eb \<and>
   registros_2x2_eb \<noteq> registros_2x2 \<and>
   main 2 2 registros_2x2_eb = main 2 2 registros_2x2 \<and>
   main 2 2 registros_2x2_eb = Inr [(3, 3), (2, 2), (2, 1), (1, 2)]"
proof -
  have h: "list_all2 (\<lambda>(x, y, v, d, c, e, b) (x', y', v', d', c', e', b').
             x' = x \<and> y' = y \<and> v' = v \<and> d' = d \<and> c' = c) registros_2x2 registros_2x2_eb"
    by (simp add: registros_2x2_def registros_2x2_eb_def)
  have d: "registros_2x2_eb \<noteq> registros_2x2"
    by (simp add: registros_2x2_def registros_2x2_eb_def)
  from C9_independe_de_e_b[OF h, of 2 2] main_2x2 h d show ?thesis by simp
qed

end
